theory Spec2Isabelle
  imports Complex_Main
begin

text \<open>
  A model of the program synchronisation core of a coach and client training tracker:
  the save of a program with its notifications and its scan for personal records (the
  \<^verbatim>\<open>save\<close> callback of the program detail screen over \<^verbatim>\<open>lib/storage.ts\<close>), and on the
  server the sweep of expired videos and the join-coach handler
  (\<^verbatim>\<open>server/routes.ts\<close> over the tables of \<^verbatim>\<open>shared/schema.ts\<close>). The persistent store is
  an explicit state that each operation takes and returns; exceptions are values.
\<close>

section \<open>Data model\<close>

text \<open>
  The entity shapes of \<^verbatim>\<open>lib/storage.ts\<close> (client side) and \<^verbatim>\<open>shared/schema.ts\<close>
  (the PostgreSQL tables). Identifiers, titles and free text are strings. A character of
  the model is a UTF-16 code unit below 256 (ASCII and the Latin-1 supplement), so a
  string of the model is a JavaScript string of such code units; strings with other
  characters are outside the model. Where a field name of the source is shared by
  several entities it carries a short prefix here, because record fields are global
  constants. Creation times of rows are left out.
\<close>

record exercise =
  ex_id :: string
  ex_name :: string
  ex_weight :: string
  repsSets :: string
  rpe :: string
  isCompleted :: bool
  ex_notes :: string
  clientNotes :: string
  coachComment :: string
  videoUrl :: string

record workout_day =
  dayNumber :: int
  exercises :: "exercise list"

record workout_week =
  weekNumber :: int
  days :: "workout_day list"

record program =
  prog_id :: string
  title :: string
  description :: string
  weeks :: "workout_week list"
  daysPerWeek :: int
  shareCode :: string
  coachId :: string
  clientId :: "string option"
  status :: string

datatype role = Coach | Client

record profile =
  prof_id :: string
  prof_name :: string
  prof_role :: role
  weightUnit :: string
  coachCode :: string
  plan :: string
  planUserLimit :: int

text \<open>A row of the \<^verbatim>\<open>clients\<close> table: the link between a coach and a client profile.\<close>

record client_link =
  cl_id :: string
  cl_coachId :: string
  clientProfileId :: string
  cl_name :: string

datatype lift_type = Squat | Bench | Deadlift

text \<open>A row of the \<^verbatim>\<open>prs\<close> table; the column \<^verbatim>\<open>weight\<close> is \<^verbatim>\<open>INTEGER NOT NULL\<close>.\<close>

record pr_row =
  pr_id :: string
  pr_profileId :: string
  liftType :: lift_type
  pr_weight :: int
  pr_unit :: string
  pr_date :: string
  pr_notes :: string

datatype notif_type = Video | Notes | Comment | Completion | Chat

record notification =
  n_id :: string
  n_profileId :: string
  ntype :: notif_type
  n_title :: string
  message :: string
  n_programId :: string
  programTitle :: string
  exerciseName :: string
  fromRole :: role
  n_read :: bool

text \<open>
  A row of \<^verbatim>\<open>video_uploads\<close>. Timestamps are milliseconds since the epoch, as
  \<^verbatim>\<open>Date.getTime()\<close> gives them; a missing \<^verbatim>\<open>coach_viewed_at\<close> is \<open>None\<close>.
\<close>

record video_upload =
  vu_id :: string
  filename :: string
  programId :: string
  exerciseId :: string
  uploadedBy :: string
  vu_coachId :: string
  coachViewedAt :: "int option"
  uploadedAt :: int

text \<open>
  The steps of the sweep, after the removal of the file, that can throw inside its
  \<^verbatim>\<open>try\<close> block: the selection of the programs with a program id, the traversal of the
  \<^verbatim>\<open>weeks\<close> document of a program (the PUT handler stores any JSON; on a document that
  is not a list of weeks with days and exercises the \<^verbatim>\<open>for ... of\<close> loops throw a
  TypeError), the update of the programs with an id, and the deletion of the upload
  record with an id.
\<close>

datatype step = SelectPrograms string | TraverseWeeks string | UpdatePrograms string | DeleteUpload string

text \<open>
  The persistent state the handlers work on: the tables, the files of the uploads
  directory, the set of paths on which \<^verbatim>\<open>fs.unlinkSync\<close> raises (a file the process
  may not remove), and the set of steps of the sweep that throw (the database is not
  reachable for that call, or the stored document is malformed). \<open>uuid_counter\<close>
  stands for the source of \<^verbatim>\<open>randomUUID()\<close>: each call yields a token not handed out
  before.
\<close>

record world =
  programs :: "program list"
  profiles :: "profile list"
  clients :: "client_link list"
  prs :: "pr_row list"
  notifications :: "notification list"
  videoUploads :: "video_upload list"
  files :: "string set"
  unlink_denied :: "string set"
  failing :: "step set"
  uuid_counter :: nat

text \<open>
  Failures as values: an exception of the file system on a path; the \<^verbatim>\<open>Error\<close> that
  \<^verbatim>\<open>apiPost\<close> throws when the server answers with a status that is not ok (only the
  status is kept); the exception of a step of the sweep; and the \<^verbatim>\<open>SyntaxError\<close> of
  \<^verbatim>\<open>res.json()\<close> on a response without a body.
\<close>

datatype error = StorageIOError string | HttpError nat | Thrown step | SyntaxError

section \<open>String helpers\<close>

text \<open>\<^verbatim>\<open>s.includes(t)\<close>: \<open>t\<close> occurs in \<open>s\<close> as a contiguous substring.\<close>

fun str_includes :: "string \<Rightarrow> string \<Rightarrow> bool" where
  "str_includes [] t = (t = [])"
| "str_includes (c # cs) t = (take (length t) (c # cs) = t \<or> str_includes cs t)"

definition dquote :: char where
  "dquote = CHR 0x22"

text \<open>
  The cased letters below code 256: the ASCII letters, and the Latin-1 letters
  \<^verbatim>\<open>U+00C0\<close> to \<^verbatim>\<open>U+00DE\<close> (without the multiplication sign \<^verbatim>\<open>U+00D7\<close>) with their
  small forms \<^verbatim>\<open>U+00E0\<close> to \<^verbatim>\<open>U+00FE\<close> (without the division sign \<^verbatim>\<open>U+00F7\<close>).
\<close>

definition upper_letters :: string where
  "upper_letters = ''ABCDEFGHIJKLMNOPQRSTUVWXYZ'' @ [
      CHR 0xC0, CHR 0xC1, CHR 0xC2, CHR 0xC3, CHR 0xC4, CHR 0xC5, CHR 0xC6, CHR 0xC7,
      CHR 0xC8, CHR 0xC9, CHR 0xCA, CHR 0xCB, CHR 0xCC, CHR 0xCD, CHR 0xCE, CHR 0xCF,
      CHR 0xD0, CHR 0xD1, CHR 0xD2, CHR 0xD3, CHR 0xD4, CHR 0xD5, CHR 0xD6, CHR 0xD8,
      CHR 0xD9, CHR 0xDA, CHR 0xDB, CHR 0xDC, CHR 0xDD, CHR 0xDE]"

definition lower_letters :: string where
  "lower_letters = ''abcdefghijklmnopqrstuvwxyz'' @ [
      CHR 0xE0, CHR 0xE1, CHR 0xE2, CHR 0xE3, CHR 0xE4, CHR 0xE5, CHR 0xE6, CHR 0xE7,
      CHR 0xE8, CHR 0xE9, CHR 0xEA, CHR 0xEB, CHR 0xEC, CHR 0xED, CHR 0xEE, CHR 0xEF,
      CHR 0xF0, CHR 0xF1, CHR 0xF2, CHR 0xF3, CHR 0xF4, CHR 0xF5, CHR 0xF6, CHR 0xF8,
      CHR 0xF9, CHR 0xFA, CHR 0xFB, CHR 0xFC, CHR 0xFD, CHR 0xFE]"

text \<open>\<^verbatim>\<open>toLowerCase\<close>: every capital below 256 has its small form below 256.\<close>

definition toLowerCase :: "string \<Rightarrow> string" where
  "toLowerCase s =
     map (\<lambda>c. case map_of (zip upper_letters lower_letters) c of Some d \<Rightarrow> d | None \<Rightarrow> c) s"

text \<open>
  \<^verbatim>\<open>toUpperCase\<close>: the sharp s \<^verbatim>\<open>U+00DF\<close> becomes \<^verbatim>\<open>SS\<close>. The capitals of the micro
  sign \<^verbatim>\<open>U+00B5\<close> and of the y with diaeresis \<^verbatim>\<open>U+00FF\<close> are \<^verbatim>\<open>U+039C\<close> and
  \<^verbatim>\<open>U+0178\<close>, which are not characters of the model: \<open>wide_upper\<close> marks the strings
  that contain one of the two, and on the other strings \<open>toUpperCase\<close> is the
  JavaScript function.
\<close>

definition wide_upper :: "string \<Rightarrow> bool" where
  "wide_upper s \<longleftrightarrow> CHR 0xB5 \<in> set s \<or> CHR 0xFF \<in> set s"

definition upper_char :: "char \<Rightarrow> string" where
  "upper_char c =
     (if c = CHR 0xDF then ''SS''
      else case map_of (zip lower_letters upper_letters) c of Some d \<Rightarrow> [d] | None \<Rightarrow> [c])"

definition toUpperCase :: "string \<Rightarrow> string" where
  "toUpperCase s = concat (map upper_char s)"

text \<open>
  White space and line terminators below 256, as \<^verbatim>\<open>trim\<close> and \<^verbatim>\<open>parseFloat\<close> skip
  them: space, tab, line feed, vertical tab, form feed, carriage return and the
  no-break space \<^verbatim>\<open>U+00A0\<close>.
\<close>

definition is_space :: "char \<Rightarrow> bool" where
  "is_space c \<longleftrightarrow>
     c \<in> set [CHR 0x20, CHR 0x09, CHR 0x0A, CHR 0x0B, CHR 0x0C, CHR 0x0D, CHR 0xA0]"

definition trim :: "string \<Rightarrow> string" where
  "trim s = rev (dropWhile is_space (rev (dropWhile is_space s)))"

definition is_digit :: "char \<Rightarrow> bool" where
  "is_digit c \<longleftrightarrow> c \<in> set ''0123456789''"

definition digit_val :: "char \<Rightarrow> nat" where
  "digit_val c = (case map_of (zip ''0123456789'' [0, 1, 2, 3, 4, 5, 6, 7, 8, 9]) c of
                    Some d \<Rightarrow> d | None \<Rightarrow> 0)"

definition digits_val :: "string \<Rightarrow> nat" where
  "digits_val ds = foldl (\<lambda>acc c. 10 * acc + digit_val c) 0 ds"

text \<open>Decimal rendering of an integer, as a template literal renders a whole number.\<close>

definition digit_char :: "nat \<Rightarrow> char" where
  "digit_char n = ''0123456789'' ! n"

fun show_nat :: "nat \<Rightarrow> string" where
  "show_nat n = (if n < 10 then [digit_char n] else show_nat (n div 10) @ [digit_char (n mod 10)])"

declare show_nat.simps [simp del]

definition show_int :: "int \<Rightarrow> string" where
  "show_int i = (if i < 0 then CHR ''-'' # show_nat (nat (- i)) else show_nat (nat i))"

section \<open>The expiry sweep (\<^verbatim>\<open>cleanupExpiredVideos\<close> in server/routes.ts)\<close>

definition unlinkSync :: "string \<Rightarrow> world \<Rightarrow> error + world" where
  "unlinkSync f s =
     (if f \<in> unlink_denied s then Inl (StorageIOError f)
      else Inr (s\<lparr>files := files s - {f}\<rparr>))"

text \<open>
  The test of the innermost loop:
  \<^verbatim>\<open>ex.id === record.exerciseId && ex.videoUrl && ex.videoUrl.includes(record.filename)\<close>.
\<close>

definition needs_blank :: "video_upload \<Rightarrow> exercise \<Rightarrow> bool" where
  "needs_blank r ex \<longleftrightarrow>
     ex_id ex = exerciseId r \<and> videoUrl ex \<noteq> [] \<and> str_includes (videoUrl ex) (filename r)"

definition blank_exercise :: "video_upload \<Rightarrow> exercise \<Rightarrow> exercise" where
  "blank_exercise r ex = (if needs_blank r ex then ex\<lparr>videoUrl := []\<rparr> else ex)"

definition blank_day :: "video_upload \<Rightarrow> workout_day \<Rightarrow> workout_day" where
  "blank_day r d = d\<lparr>exercises := map (blank_exercise r) (exercises d)\<rparr>"

definition blank_week :: "video_upload \<Rightarrow> workout_week \<Rightarrow> workout_week" where
  "blank_week r w = w\<lparr>days := map (blank_day r) (days w)\<rparr>"

text \<open>
  What the two inner loops make of one stored program: a program with the record's
  program id has every exercise that passes the test blanked, any other program is
  left as it is.
\<close>

definition scrubbed :: "video_upload \<Rightarrow> program \<Rightarrow> program" where
  "scrubbed r p = (if prog_id p = programId r then p\<lparr>weeks := map (blank_week r) (weeks p)\<rparr> else p)"

text \<open>The flag \<^verbatim>\<open>changed\<close>: some exercise of the tree passed the test.\<close>

definition changed :: "video_upload \<Rightarrow> workout_week list \<Rightarrow> bool" where
  "changed r ws \<longleftrightarrow>
     (\<exists>w \<in> set ws. \<exists>d \<in> set (days w). \<exists>ex \<in> set (exercises d). needs_blank r ex)"

text \<open>
  \<^verbatim>\<open>db.update(programs).set({ weeks }).where(eq(programs.id, prog.id))\<close>: every row with
  that id receives the document.
\<close>

definition update_weeks :: "string \<Rightarrow> workout_week list \<Rightarrow> program list \<Rightarrow> program list" where
  "update_weeks pid ws ps = map (\<lambda>p. if prog_id p = pid then p\<lparr>weeks := ws\<rparr> else p) ps"

text \<open>
  The loop over \<^verbatim>\<open>allPrograms\<close>, the rows selected before the loop starts. For each
  program the tree is traversed and, when an exercise was blanked, the row is updated.
  A step that throws ends the loop; the error comes with the state reached so far (the
  blanking itself works on the selected copy and is stored only by the update).
\<close>

fun scrub_programs :: "video_upload \<Rightarrow> program list \<Rightarrow> world \<Rightarrow> (error \<times> world) + world" where
  "scrub_programs r [] s = Inr s"
| "scrub_programs r (prog # rest) s =
     (if TraverseWeeks (prog_id prog) \<in> failing s then Inl (Thrown (TraverseWeeks (prog_id prog)), s)
      else if changed r (weeks prog) then
        (if UpdatePrograms (prog_id prog) \<in> failing s
         then Inl (Thrown (UpdatePrograms (prog_id prog)), s)
         else scrub_programs r rest
                (s\<lparr>programs :=
                     update_weeks (prog_id prog) (map (blank_week r) (weeks prog)) (programs s)\<rparr>))
      else scrub_programs r rest s)"

text \<open>
  One iteration of \<^verbatim>\<open>for (const record of toDelete)\<close>: remove the file when it
  exists, select and scrub the programs with the record's program id, delete the
  record. Each of these statements can throw; the error comes with the state in which
  the iteration was left.
\<close>

definition process_record :: "video_upload \<Rightarrow> world \<Rightarrow> (error \<times> world) + world" where
  "process_record r s =
     (case (if filename r \<in> files s then unlinkSync (filename r) s else Inr s) of
        Inl e \<Rightarrow> Inl (e, s)
      | Inr s1 \<Rightarrow>
          if SelectPrograms (programId r) \<in> failing s1
          then Inl (Thrown (SelectPrograms (programId r)), s1)
          else
            (case scrub_programs r (filter (\<lambda>p. prog_id p = programId r) (programs s1)) s1 of
               Inl es \<Rightarrow> Inl es
             | Inr s2 \<Rightarrow>
                 if DeleteUpload (vu_id r) \<in> failing s2
                 then Inl (Thrown (DeleteUpload (vu_id r)), s2)
                 else Inr (s2\<lparr>videoUploads :=
                              filter (\<lambda>v. vu_id v \<noteq> vu_id r) (videoUploads s2)\<rparr>)))"

text \<open>
  The loop sits inside one \<^verbatim>\<open>try\<close> block: an exception leaves the loop and is logged
  by the \<^verbatim>\<open>catch\<close> of the function. The result is the state reached and the logged
  error, if any.
\<close>

fun sweep_loop :: "video_upload list \<Rightarrow> world \<Rightarrow> world \<times> error option" where
  "sweep_loop [] s = (s, None)"
| "sweep_loop (r # rs) s =
     (case process_record r s of
        Inl (e, s') \<Rightarrow> (s', Some e)
      | Inr s' \<Rightarrow> sweep_loop rs s')"

definition threeDays :: int where "threeDays = 3 * 24 * 60 * 60 * 1000"
definition sevenDays :: int where "sevenDays = 7 * 24 * 60 * 60 * 1000"

definition viewedExpired :: "int \<Rightarrow> world \<Rightarrow> video_upload list" where
  "viewedExpired now s =
     filter (\<lambda>v. case coachViewedAt v of None \<Rightarrow> False | Some t \<Rightarrow> t < now - threeDays)
       (videoUploads s)"

definition unviewedExpired :: "int \<Rightarrow> world \<Rightarrow> video_upload list" where
  "unviewedExpired now s =
     filter (\<lambda>v. coachViewedAt v = None \<and> uploadedAt v < now - sevenDays) (videoUploads s)"

definition cleanupExpiredVideos :: "int \<Rightarrow> world \<Rightarrow> world \<times> error option" where
  "cleanupExpiredVideos now s = sweep_loop (viewedExpired now s @ unviewedExpired now s) s"


section \<open>Numbers of the PR scanner\<close>

text \<open>
  The values \<^verbatim>\<open>parseFloat\<close> can return: NaN, the infinities, and the finite doubles,
  each given by the real number it stands for.
\<close>

datatype jsnum = NaN | Fin real | PosInf | NegInf

text \<open>
  Rounding of a positive real to the nearest double, ties to the even significand
  (IEEE 754 binary64: 53 significant bits, least exponent \<open>-1022\<close>, overflow to infinity
  from \<open>2 ^ 1024\<close>). \<open>bitlen n\<close> is the number of binary digits of \<open>n\<close>;
  \<open>binary_exponent q\<close> is the \<open>e\<close> with \<open>2 ^ e \<le> q < 2 ^ (e + 1)\<close>.
\<close>

fun bitlen :: "nat \<Rightarrow> nat" where
  "bitlen n = (if n = 0 then 0 else Suc (bitlen (n div 2)))"

declare bitlen.simps [simp del]

definition pow2 :: "int \<Rightarrow> real" where
  "pow2 e = (if 0 \<le> e then 2 ^ nat e else 1 / 2 ^ nat (- e))"

definition round_half_even :: "real \<Rightarrow> int" where
  "round_half_even y =
     (let f = \<lfloor>y\<rfloor>; d = y - of_int f
      in if d < 1 / 2 then f else if 1 / 2 < d then f + 1 else if even f then f else f + 1)"

definition binary_exponent :: "real \<Rightarrow> int" where
  "binary_exponent q =
     (if 1 \<le> q then int (bitlen (nat \<lfloor>q\<rfloor>)) - 1 else - int (bitlen (nat \<lceil>1 / q\<rceil> - 1)))"

definition to_double :: "real \<Rightarrow> jsnum" where
  "to_double q =
     (if q = 0 then Fin 0
      else let ulp = pow2 (max (binary_exponent q) (- 1022) - 52);
               r = of_int (round_half_even (q / ulp)) * ulp
           in if pow2 1024 \<le> r then PosInf else Fin r)"

definition isNaN :: "jsnum \<Rightarrow> bool" where
  "isNaN x \<longleftrightarrow> x = NaN"

text \<open>\<^verbatim>\<open>x <= 0\<close> and \<^verbatim>\<open>x > b\<close> for a whole number \<open>b\<close>; both are false on NaN.\<close>

definition js_le_zero :: "jsnum \<Rightarrow> bool" where
  "js_le_zero x = (case x of NaN \<Rightarrow> False | Fin q \<Rightarrow> q \<le> 0 | PosInf \<Rightarrow> False | NegInf \<Rightarrow> True)"

definition js_gt :: "jsnum \<Rightarrow> int \<Rightarrow> bool" where
  "js_gt x b = (case x of NaN \<Rightarrow> False | Fin q \<Rightarrow> of_int b < q | PosInf \<Rightarrow> True | NegInf \<Rightarrow> False)"

definition js_neg :: "jsnum \<Rightarrow> jsnum" where
  "js_neg x = (case x of NaN \<Rightarrow> NaN | Fin q \<Rightarrow> Fin (- q) | PosInf \<Rightarrow> NegInf | NegInf \<Rightarrow> PosInf)"

text \<open>
  The exponent part of a decimal literal: \<^verbatim>\<open>e\<close> or \<^verbatim>\<open>E\<close>, an optional sign and at
  least one digit; anything else contributes no exponent.
\<close>

definition exponent_of :: "string \<Rightarrow> int" where
  "exponent_of s =
     (case s of
        [] \<Rightarrow> 0
      | c # t \<Rightarrow>
          if c = CHR ''e'' \<or> c = CHR ''E'' then
            (case t of
               [] \<Rightarrow> 0
             | d # u \<Rightarrow>
                 if d = CHR ''-'' then
                   (if takeWhile is_digit u = [] then 0 else - int (digits_val (takeWhile is_digit u)))
                 else if d = CHR ''+'' then int (digits_val (takeWhile is_digit u))
                 else int (digits_val (takeWhile is_digit t)))
          else 0)"

definition scale10 :: "real \<Rightarrow> int \<Rightarrow> real" where
  "scale10 q e = (if 0 \<le> e then q * 10 ^ nat e else q / 10 ^ nat (- e))"

text \<open>
  The longest prefix that is an unsigned decimal literal or \<^verbatim>\<open>Infinity\<close>; the
  mathematical value of the literal is rounded to a double.
\<close>

definition parse_unsigned :: "string \<Rightarrow> jsnum" where
  "parse_unsigned s =
     (let ip = takeWhile is_digit s;
          r1 = dropWhile is_digit s;
          fp = (case r1 of [] \<Rightarrow> [] | c # t \<Rightarrow> if c = CHR ''.'' then takeWhile is_digit t else []);
          r2 = (case r1 of [] \<Rightarrow> [] | c # t \<Rightarrow> if c = CHR ''.'' then dropWhile is_digit t else r1)
      in if ip = [] \<and> fp = [] then (if take 8 s = ''Infinity'' then PosInf else NaN)
         else to_double (scale10 (of_nat (digits_val (ip @ fp)) / 10 ^ length fp) (exponent_of r2)))"

definition parseFloat :: "string \<Rightarrow> jsnum" where
  "parseFloat str =
     (case dropWhile is_space str of
        [] \<Rightarrow> NaN
      | c # t \<Rightarrow>
          if c = CHR ''-'' then js_neg (parse_unsigned t)
          else if c = CHR ''+'' then parse_unsigned t
          else parse_unsigned (c # t))"

section \<open>Client-side storage operations (lib/storage.ts) over the server's handlers\<close>

text \<open>
  Every request reaches the server and is answered by its handler (no transport
  failure); \<open>me\<close> is the profile that \<^verbatim>\<open>getProfile()\<close> returns for the stored profile
  id. A table is the list of its rows.
\<close>

definition randomUUID :: "world \<Rightarrow> string" where
  "randomUUID s = ''uuid-'' @ show_nat (uuid_counter s)"

text \<open>\<^verbatim>\<open>getProgram\<close>: the first row with that id, \<^verbatim>\<open>null\<close> when the request fails.\<close>

definition getProgram :: "string \<Rightarrow> world \<Rightarrow> program option" where
  "getProgram pid s = find (\<lambda>p. prog_id p = pid) (programs s)"

text \<open>
  The update of the PUT handler: the six fields the client sends are set in the rows
  with the program's id.
\<close>

definition put_program :: "program \<Rightarrow> world \<Rightarrow> world" where
  "put_program p s =
     s\<lparr>programs :=
         map (\<lambda>q. if prog_id q = prog_id p
                   then q\<lparr>title := title p, description := description p, weeks := weeks p,
                          daysPerWeek := daysPerWeek p, clientId := clientId p, status := status p\<rparr>
                   else q)
           (programs s)\<rparr>"

text \<open>
  \<^verbatim>\<open>updateProgram\<close>: the handler answers with the first updated row. When no row has
  the id there is none, the response has no body, and \<^verbatim>\<open>res.json()\<close> in \<^verbatim>\<open>apiPut\<close>
  throws.
\<close>

definition updateProgram :: "program \<Rightarrow> world \<Rightarrow> error + world" where
  "updateProgram p s =
     (case find (\<lambda>q. prog_id q = prog_id p) (programs s) of
        None \<Rightarrow> Inl SyntaxError
      | Some updated \<Rightarrow> Inr (put_program p s))"

text \<open>
  \<^verbatim>\<open>getClients\<close>: the links whose coach is the caller. The handler orders them by join
  time, which the lookup by primary key below does not depend on.
\<close>

definition getClients :: "profile \<Rightarrow> world \<Rightarrow> client_link list" where
  "getClients me s = filter (\<lambda>c. cl_coachId c = prof_id me) (clients s)"

definition getPRs :: "profile \<Rightarrow> world \<Rightarrow> pr_row list" where
  "getPRs me s = filter (\<lambda>p. pr_profileId p = prof_id me) (prs s)"

text \<open>
  The argument of \<^verbatim>\<open>addNotification\<close>: the notification fields and the optional
  \<^verbatim>\<open>targetProfileId\<close>.
\<close>

record notif_draft =
  targetProfileId :: "string option"
  d_type :: notif_type
  d_title :: string
  d_message :: string
  d_programId :: string
  d_programTitle :: string
  d_exerciseName :: string
  d_fromRole :: role

text \<open>\<^verbatim>\<open>notification.targetProfileId || profile.id\<close>: a missing or empty target is falsy.\<close>

definition addressee :: "string option \<Rightarrow> profile \<Rightarrow> string" where
  "addressee t me = (case t of None \<Rightarrow> prof_id me | Some x \<Rightarrow> if x = [] then prof_id me else x)"

text \<open>
  \<^verbatim>\<open>addNotification\<close>: POST /api/notifications inserts the row. \<^verbatim>\<open>save\<close> does not await
  these calls; they are taken in the order in which they are issued.
\<close>

definition addNotification :: "profile \<Rightarrow> notif_draft \<Rightarrow> world \<Rightarrow> world" where
  "addNotification me d s =
     s\<lparr>notifications := notifications s @
          [\<lparr>n_id = randomUUID s, n_profileId = addressee (targetProfileId d) me,
            ntype = d_type d, n_title = d_title d, message = d_message d,
            n_programId = d_programId d, programTitle = d_programTitle d,
            exerciseName = d_exerciseName d, fromRole = d_fromRole d, n_read = False\<rparr>],
       uuid_counter := Suc (uuid_counter s)\<rparr>"

text \<open>
  The \<^verbatim>\<open>weight\<close> column of \<^verbatim>\<open>prs\<close> is \<^verbatim>\<open>INTEGER NOT NULL\<close>. The driver passes the
  number as text, and the integer input of the database accepts only a whole number
  within 32 bits; a fractional or non-finite weight makes the insert fail.
\<close>

definition int4_of :: "jsnum \<Rightarrow> int option" where
  "int4_of x =
     (case x of
        Fin q \<Rightarrow> if of_int \<lfloor>q\<rfloor> = q \<and> - 2147483648 \<le> q \<and> q \<le> 2147483647 then Some \<lfloor>q\<rfloor> else None
      | _ \<Rightarrow> None)"

text \<open>
  \<^verbatim>\<open>addPR\<close>: POST /api/prs. A failed insert is answered with status 500, which
  \<^verbatim>\<open>apiPost\<close> throws.
\<close>

definition addPR :: "profile \<Rightarrow> lift_type \<Rightarrow> jsnum \<Rightarrow> string \<Rightarrow> string \<Rightarrow> string \<Rightarrow> world \<Rightarrow> error + world" where
  "addPR me t w u d n s =
     (case int4_of w of
        None \<Rightarrow> Inl (HttpError 500)
      | Some i \<Rightarrow>
          Inr (s\<lparr>prs := prs s @
                   [\<lparr>pr_id = randomUUID s, pr_profileId = prof_id me, liftType = t, pr_weight = i,
                     pr_unit = (if u = [] then ''kg'' else u), pr_date = d, pr_notes = n\<rparr>],
                 uuid_counter := Suc (uuid_counter s)\<rparr>))"

section \<open>Saving a program (\<^verbatim>\<open>save\<close> of the program detail screen)\<close>

text \<open>The counterpart \<^verbatim>\<open>targetProfileId\<close> as \<^verbatim>\<open>save\<close> computes it.\<close>

definition resolve_target :: "bool \<Rightarrow> profile \<Rightarrow> program \<Rightarrow> world \<Rightarrow> string option" where
  "resolve_target isCoach me prog s =
     (if \<not> isCoach then Some (coachId prog)
      else case clientId prog of
             None \<Rightarrow> None
           | Some cid \<Rightarrow>
               if cid = [] then None
               else (case find (\<lambda>c. cl_id c = cid) (getClients me s) of
                       None \<Rightarrow> None
                     | Some c \<Rightarrow> if clientProfileId c = [] then None else Some (clientProfileId c)))"

text \<open>
  The three \<^verbatim>\<open>find\<close> calls that select the old exercise: by week number, by day number,
  by exercise id.
\<close>

definition find_oldEx :: "program \<Rightarrow> workout_week \<Rightarrow> workout_day \<Rightarrow> exercise \<Rightarrow> exercise option" where
  "find_oldEx oldProgram week day ex =
     (case find (\<lambda>w. weekNumber w = weekNumber week) (weeks oldProgram) of
        None \<Rightarrow> None
      | Some oldWeek \<Rightarrow>
          (case find (\<lambda>d. dayNumber d = dayNumber day) (days oldWeek) of
             None \<Rightarrow> None
           | Some oldDay \<Rightarrow> find (\<lambda>e. ex_id e = ex_id ex) (exercises oldDay)))"

definition draft :: "string option \<Rightarrow> notif_type \<Rightarrow> string \<Rightarrow> string \<Rightarrow> program \<Rightarrow> exercise \<Rightarrow> role \<Rightarrow> notif_draft" where
  "draft target ty ttl msg prog ex r =
     \<lparr>targetProfileId = target, d_type = ty, d_title = ttl, d_message = msg,
      d_programId = prog_id prog, d_programTitle = title prog, d_exerciseName = ex_name ex,
      d_fromRole = r\<rparr>"

text \<open>The body of the innermost loop for one exercise, given the old exercise found.\<close>

definition exercise_notifications ::
  "bool \<Rightarrow> string option \<Rightarrow> program \<Rightarrow> exercise option \<Rightarrow> exercise \<Rightarrow> notif_draft list" where
  "exercise_notifications isCoach target prog oldEx ex =
     (case oldEx of
        None \<Rightarrow> []
      | Some old \<Rightarrow>
          if ex_name ex = [] then []
          else if \<not> isCoach then
            (if clientNotes ex \<noteq> [] \<and> clientNotes ex \<noteq> clientNotes old
             then [draft target Notes ''New Client Notes''
                     (''Notes added on '' @ ex_name ex @ '': '' @ [dquote] @ take 60 (clientNotes ex) @ [dquote])
                     prog ex Client]
             else []) @
            (if videoUrl ex \<noteq> [] \<and> videoUrl ex \<noteq> videoUrl old
             then [draft target Video ''Form Check Video'' (''Video uploaded for '' @ ex_name ex) prog ex Client]
             else []) @
            (if isCompleted ex \<and> \<not> isCompleted old
             then [draft target Completion ''Exercise Completed'' (ex_name ex @ '' marked as completed'') prog ex Client]
             else [])
          else
            (if coachComment ex \<noteq> [] \<and> coachComment ex \<noteq> coachComment old
             then [draft target Comment ''New Coach Feedback''
                     (''Coach commented on '' @ ex_name ex @ '': '' @ [dquote] @ take 60 (coachComment ex) @ [dquote])
                     prog ex Coach]
             else []))"

definition day_notifications ::
  "bool \<Rightarrow> string option \<Rightarrow> program \<Rightarrow> program \<Rightarrow> workout_week \<Rightarrow> workout_day \<Rightarrow> notif_draft list" where
  "day_notifications isCoach target prog oldProgram week day =
     concat (map (\<lambda>ex. exercise_notifications isCoach target prog (find_oldEx oldProgram week day ex) ex)
               (exercises day))"

definition week_notifications ::
  "bool \<Rightarrow> string option \<Rightarrow> program \<Rightarrow> program \<Rightarrow> workout_week \<Rightarrow> notif_draft list" where
  "week_notifications isCoach target prog oldProgram week =
     concat (map (day_notifications isCoach target prog oldProgram week) (days week))"

definition save_notifications ::
  "bool \<Rightarrow> string option \<Rightarrow> program \<Rightarrow> program \<Rightarrow> notif_draft list" where
  "save_notifications isCoach target prog oldProgram =
     concat (map (week_notifications isCoach target prog oldProgram) (weeks prog))"

subsection \<open>The PR scan\<close>

definition liftKeywords :: "(string \<times> lift_type) list" where
  "liftKeywords =
     [(''squat'', Squat), (''back squat'', Squat), (''front squat'', Squat),
      (''bench'', Bench), (''bench press'', Bench), (''flat bench'', Bench),
      (''deadlift'', Deadlift), (''sumo deadlift'', Deadlift), (''conventional deadlift'', Deadlift)]"

text \<open>The first keyword, in the order of the table, that the lowered name includes.\<close>

definition classify :: "string \<Rightarrow> lift_type option" where
  "classify exNameLower = map_option snd (find (\<lambda>kt. str_includes exNameLower (fst kt)) liftKeywords)"

definition currentBest :: "pr_row list \<Rightarrow> lift_type \<Rightarrow> int" where
  "currentBest existingPRs t =
     (let bestExisting = filter (\<lambda>p. liftType p = t) existingPRs
      in if bestExisting = [] then 0 else Max (set (map pr_weight bestExisting)))"

text \<open>
  The checks of the loop body up to the comparison: \<open>None\<close> for \<^verbatim>\<open>continue\<close> or a
  weight that is no new best, otherwise the lift type and weight handed to \<^verbatim>\<open>addPR\<close>.
\<close>

definition scan_exercise :: "pr_row list \<Rightarrow> exercise \<Rightarrow> (lift_type \<times> jsnum) option" where
  "scan_exercise existingPRs ex =
     (if ex_name ex = [] \<or> ex_weight ex = [] \<or> \<not> isCompleted ex then None
      else case classify (trim (toLowerCase (ex_name ex))) of
             None \<Rightarrow> None
           | Some t \<Rightarrow>
               let weightNum = parseFloat (ex_weight ex)
               in if isNaN weightNum \<or> js_le_zero weightNum then None
                  else if js_gt weightNum (currentBest existingPRs t) then Some (t, weightNum)
                  else None)"

definition all_exercises :: "program \<Rightarrow> exercise list" where
  "all_exercises prog = concat (map (\<lambda>week. concat (map exercises (days week))) (weeks prog))"

text \<open>
  The three nested loops of the scan, in traversal order. \<open>existingPRs\<close> is read once
  before the loops. An exception of \<^verbatim>\<open>addPR\<close> leaves all loops; the \<^verbatim>\<open>catch\<close> logs it.
\<close>

fun scan_loop ::
  "profile \<Rightarrow> pr_row list \<Rightarrow> program \<Rightarrow> string \<Rightarrow> exercise list \<Rightarrow> world \<Rightarrow> world \<times> error option" where
  "scan_loop me existingPRs prog today [] s = (s, None)"
| "scan_loop me existingPRs prog today (ex # rest) s =
     (case scan_exercise existingPRs ex of
        None \<Rightarrow> scan_loop me existingPRs prog today rest s
      | Some (t, weightNum) \<Rightarrow>
          (case addPR me t weightNum (weightUnit me) today
                  (''Auto-logged from '' @ title prog @ '' - '' @ ex_name ex) s of
             Inl e \<Rightarrow> (s, Some e)
           | Inr s' \<Rightarrow> scan_loop me existingPRs prog today rest s'))"

text \<open>
  \<^verbatim>\<open>save\<close>: read the old program, store the new one, emit the notifications when an old
  program exists, and run the PR scan when the actor is not the coach. \<open>today\<close> is the
  date part of the current time. The result is the state reached and the error, if any:
  the exception of \<^verbatim>\<open>updateProgram\<close>, which ends the save before anything else is done,
  or the error that the scan logged.
\<close>

definition save :: "bool \<Rightarrow> profile \<Rightarrow> string \<Rightarrow> program \<Rightarrow> world \<Rightarrow> world \<times> error option" where
  "save isCoach me today prog s0 =
     (let oldProgram = getProgram (prog_id prog) s0
      in case updateProgram prog s0 of
           Inl e \<Rightarrow> (s0, Some e)
         | Inr s1 \<Rightarrow>
             let s2 = (case oldProgram of
                         None \<Rightarrow> s1
                       | Some old \<Rightarrow>
                           fold (addNotification me)
                             (save_notifications isCoach (resolve_target isCoach me prog s1) prog old) s1)
             in if \<not> isCoach then scan_loop me (getPRs me s2) prog today (all_exercises prog) s2
                else (s2, None))"

section \<open>Joining a coach (POST /api/join-coach)\<close>

datatype join_response = Joined string string client_link | Rejected nat string

definition planName :: "string \<Rightarrow> string" where
  "planName p =
     (if p = ''free'' then ''Free''
      else if p = ''tier_5'' then ''Starter''
      else if p = ''tier_10'' then ''Growth''
      else if p = ''saas'' then ''SaaS''
      else toUpperCase (take 1 p) @ drop 1 p)"

definition capacity_message :: "string \<Rightarrow> int \<Rightarrow> string" where
  "capacity_message p limit =
     ''This coach has reached their '' @ planName p @ '' plan limit of '' @ show_int limit @
     '' client'' @ (if limit \<noteq> 1 then ''s'' else []) @
     ''. The coach needs to upgrade their plan to accept more clients.''"

text \<open>
  The capacity block: the coach's profile row is read again by id (\<^verbatim>\<open>limit(1)\<close>);
  \<^verbatim>\<open>plan || 'free'\<close> and \<^verbatim>\<open>planUserLimit || 1\<close> replace an empty plan and a limit of 0.
\<close>

definition capacity_rejection :: "profile \<Rightarrow> world \<Rightarrow> string option" where
  "capacity_rejection coach s =
     (case find (\<lambda>p. prof_id p = prof_id coach) (profiles s) of
        None \<Rightarrow> None
      | Some cp \<Rightarrow>
          let pl = (if plan cp = [] then ''free'' else plan cp);
              limit = (if planUserLimit cp = 0 then 1 else planUserLimit cp);
              currentClients = filter (\<lambda>c. cl_coachId c = prof_id coach) (clients s)
          in if int (length currentClients) \<ge> limit then Some (capacity_message pl limit) else None)"

definition join_coach :: "string \<Rightarrow> string \<Rightarrow> string \<Rightarrow> world \<Rightarrow> join_response \<times> world" where
  "join_coach code cpid clientName s =
     (case find (\<lambda>p. coachCode p = toUpperCase code \<and> prof_role p = Coach) (profiles s) of
        None \<Rightarrow> (Rejected 404 ''Invalid coach code'', s)
      | Some coach \<Rightarrow>
          (case filter (\<lambda>c. cl_coachId c = prof_id coach \<and> clientProfileId c = cpid) (clients s) of
             e # _ \<Rightarrow> (Joined (prof_id coach) (prof_name coach) e, s)
           | [] \<Rightarrow>
               if filter (\<lambda>c. clientProfileId c = cpid) (clients s) \<noteq> [] then
                 (Rejected 400
                    ''You already have a coach. Remove your current coach before joining a new one.'', s)
               else
                 (case capacity_rejection coach s of
                    Some msg \<Rightarrow> (Rejected 403 msg, s)
                  | None \<Rightarrow>
                      let client = \<lparr>cl_id = randomUUID s, cl_coachId = prof_id coach,
                                    clientProfileId = cpid,
                                    cl_name = (if clientName = [] then ''Client'' else clientName)\<rparr>
                      in (Joined (prof_id coach) (prof_name coach) client,
                          s\<lparr>clients := clients s @ [client], uuid_counter := Suc (uuid_counter s)\<rparr>))))"

section \<open>Example data\<close>

text \<open>Concrete programs, profiles and stores on which the operations are evaluated below.\<close>

definition mk_exercise :: "string \<Rightarrow> string \<Rightarrow> string \<Rightarrow> bool \<Rightarrow> exercise" where
  "mk_exercise i n w c =
     \<lparr>ex_id = i, ex_name = n, ex_weight = w, repsSets = ''5x5'', rpe = ''7'', isCompleted = c,
      ex_notes = [], clientNotes = [], coachComment = [], videoUrl = []\<rparr>"

definition mk_program :: "string option \<Rightarrow> workout_week list \<Rightarrow> program" where
  "mk_program cid ws =
     \<lparr>prog_id = ''p1'', title = ''Strength'', description = [], weeks = ws, daysPerWeek = 1,
      shareCode = ''ABC234'', coachId = ''coach1'', clientId = cid, status = ''active''\<rparr>"

definition one_day :: "exercise list \<Rightarrow> workout_week list" where
  "one_day exs = [\<lparr>weekNumber = 1, days = [\<lparr>dayNumber = 1, exercises = exs\<rparr>]\<rparr>]"

definition coach1 :: profile where
  "coach1 = \<lparr>prof_id = ''coach1'', prof_name = ''Dana'', prof_role = Coach, weightUnit = ''kg'',
             coachCode = ''ABC234'', plan = ''free'', planUserLimit = 1\<rparr>"

definition client1 :: profile where
  "client1 = \<lparr>prof_id = ''client1'', prof_name = ''Sam'', prof_role = Client, weightUnit = ''kg'',
              coachCode = ''XYZ789'', plan = ''free'', planUserLimit = 1\<rparr>"

definition link1 :: client_link where
  "link1 = \<lparr>cl_id = ''link1'', cl_coachId = ''coach1'', clientProfileId = ''client1'', cl_name = ''Sam''\<rparr>"

definition store :: "program list \<Rightarrow> client_link list \<Rightarrow> pr_row list \<Rightarrow> world" where
  "store ps cs rs =
     \<lparr>programs = ps, profiles = [coach1, client1], clients = cs, prs = rs, notifications = [],
      videoUploads = [], files = {}, unlink_denied = {}, failing = {}, uuid_counter = 0\<rparr>"

text \<open>Sweep: two expired uploads of program \<open>p1\<close>; both exercises show the first file.\<close>

definition sweep_prog :: program where
  "sweep_prog =
     mk_program (Some ''link1'')
       (one_day [(mk_exercise ''e1'' ''Squat'' ''100'' True)\<lparr>videoUrl := ''/api/videos/a.mp4''\<rparr>,
                 (mk_exercise ''e2'' ''Bench Press'' ''60'' True)\<lparr>videoUrl := ''/api/videos/a.mp4''\<rparr>])"

definition vid_a :: video_upload where
  "vid_a = \<lparr>vu_id = ''v1'', filename = ''a.mp4'', programId = ''p1'', exerciseId = ''e1'',
            uploadedBy = ''client1'', vu_coachId = ''coach1'', coachViewedAt = None, uploadedAt = 0\<rparr>"

definition vid_b :: video_upload where
  "vid_b = \<lparr>vu_id = ''v2'', filename = ''b.mp4'', programId = ''p1'', exerciseId = ''e2'',
            uploadedBy = ''client1'', vu_coachId = ''coach1'', coachViewedAt = None, uploadedAt = 0\<rparr>"

definition vid_c :: video_upload where
  "vid_c = \<lparr>vu_id = ''v3'', filename = ''c.mp4'', programId = ''p1'', exerciseId = ''e2'',
            uploadedBy = ''client1'', vu_coachId = ''coach1'', coachViewedAt = None, uploadedAt = 0\<rparr>"

definition sweep_world :: "string set \<Rightarrow> world" where
  "sweep_world denied =
     (store [sweep_prog] [link1] [])
       \<lparr>videoUploads := [vid_a, vid_b], files := {''a.mp4'', ''b.mp4''}, unlink_denied := denied\<rparr>"

text \<open>
  Three uploads, all files present, and a database that refuses to delete the record
  of the first upload.
\<close>

definition stuck_world :: world where
  "stuck_world =
     (sweep_world {})
       \<lparr>videoUploads := [vid_a, vid_b, vid_c], files := {''a.mp4'', ''b.mp4'', ''c.mp4''},
        failing := {DeleteUpload ''v1''}\<rparr>"

definition eight_days :: int where
  "eight_days = 8 * 24 * 60 * 60 * 1000"

text \<open>
  Join: a coach on the \<^verbatim>\<open>tier_5\<close> plan with limit 5 and five linked clients; a coach
  whose stored limit is 0; and the first coach, on the free plan with one linked client.
\<close>

definition full_coach :: profile where
  "full_coach = \<lparr>prof_id = ''coach2'', prof_name = ''Eli'', prof_role = Coach, weightUnit = ''kg'',
                 coachCode = ''FUL555'', plan = ''tier_5'', planUserLimit = 5\<rparr>"

definition zero_coach :: profile where
  "zero_coach = \<lparr>prof_id = ''coach3'', prof_name = ''Flo'', prof_role = Coach, weightUnit = ''kg'',
                 coachCode = ''ZER222'', plan = ''tier_5'', planUserLimit = 0\<rparr>"

definition five_links :: "client_link list" where
  "five_links =
     map (\<lambda>k. \<lparr>cl_id = CHR ''k'' # show_nat k, cl_coachId = ''coach2'',
                clientProfileId = CHR ''c'' # show_nat k, cl_name = ''Client''\<rparr>) [0..<5]"

definition join_world :: world where
  "join_world = (store [] (link1 # five_links) [])\<lparr>profiles := [coach1, client1, full_coach, zero_coach]\<rparr>"

text \<open>
  A coach on the \<^verbatim>\<open>enterprise\<close> plan, for which the payment webhook stores the limit
  999, with 999 linked clients.
\<close>

definition big_coach :: profile where
  "big_coach = \<lparr>prof_id = ''coach4'', prof_name = ''Gus'', prof_role = Coach, weightUnit = ''kg'',
                coachCode = ''BIG999'', plan = ''enterprise'', planUserLimit = 999\<rparr>"

definition many_links :: "client_link list" where
  "many_links =
     map (\<lambda>k. \<lparr>cl_id = CHR ''m'' # show_nat k, cl_coachId = ''coach4'',
                clientProfileId = CHR ''d'' # show_nat k, cl_name = ''Client''\<rparr>) [0..<999]"

definition enterprise_world :: world where
  "enterprise_world = (store [] many_links [])\<lparr>profiles := [big_coach]\<rparr>"

text \<open>Save: a stored program of two exercises and edits of it.\<close>

definition squat_ex :: exercise where
  "squat_ex = mk_exercise ''e0'' ''Squat'' ''100'' True"

definition bench_ex :: exercise where
  "bench_ex = mk_exercise ''e1'' ''Bench Press'' ''60'' False"

definition lunges_ex :: exercise where
  "lunges_ex = (mk_exercise ''e9'' ''Lunges'' ''20'' False)\<lparr>clientNotes := ''Felt good''\<rparr>"

definition base_prog :: "string option \<Rightarrow> program" where
  "base_prog cid = mk_program cid (one_day [squat_ex, bench_ex])"

text \<open>The coach comments on the bench press.\<close>

definition commented_prog :: "string option \<Rightarrow> program" where
  "commented_prog cid = mk_program cid (one_day [squat_ex, bench_ex\<lparr>coachComment := ''Good job''\<rparr>])"

text \<open>The commented program after the squat row was deleted.\<close>

definition trimmed_prog :: "string option \<Rightarrow> program" where
  "trimmed_prog cid = mk_program cid (one_day [bench_ex\<lparr>coachComment := ''Good job''\<rparr>])"

text \<open>The base program after the client added a row with notes.\<close>

definition added_prog :: program where
  "added_prog = mk_program (Some ''link1'') (one_day [squat_ex, bench_ex, lunges_ex])"

text \<open>Three completed lifts, the second with a fractional weight.\<close>

definition fractional_prog :: program where
  "fractional_prog =
     mk_program (Some ''link1'')
       (one_day [mk_exercise ''e0'' ''Squat'' ''200'' True,
                 mk_exercise ''e1'' ''Front Squat'' ''100.5'' True,
                 mk_exercise ''e2'' ''Bench Press'' ''50'' True])"

text \<open>Two completed squats of the same weight.\<close>

definition twin_prog :: "string \<Rightarrow> program" where
  "twin_prog w =
     mk_program (Some ''link1'')
       (one_day [mk_exercise ''e0'' ''Squat'' w True, mk_exercise ''e1'' ''Back Squat'' w True])"

definition today0 :: string where
  "today0 = ''2026-01-15''"

section \<open>Evaluation rules\<close>

lemmas str_defs = toLowerCase_def toUpperCase_def upper_char_def wide_upper_def upper_letters_def
  lower_letters_def trim_def is_space_def is_digit_def digit_val_def digits_val_def digit_char_def
  dquote_def

lemmas num_defs = parseFloat_def parse_unsigned_def exponent_of_def scale10_def js_neg_def
  js_gt_def js_le_zero_def isNaN_def int4_of_def to_double_def pow2_def round_half_even_def
  binary_exponent_def bitlen.simps

lemmas sweep_defs = cleanupExpiredVideos_def viewedExpired_def unviewedExpired_def sevenDays_def
  threeDays_def process_record_def unlinkSync_def changed_def needs_blank_def update_weeks_def
  blank_week_def blank_day_def blank_exercise_def scrubbed_def all_exercises_def

lemmas join_defs = join_coach_def capacity_rejection_def capacity_message_def planName_def
  show_int_def show_nat.simps randomUUID_def Let_def

lemmas save_defs = save_def getProgram_def updateProgram_def put_program_def resolve_target_def getClients_def
  getPRs_def save_notifications_def week_notifications_def day_notifications_def
  exercise_notifications_def find_oldEx_def draft_def addNotification_def addressee_def
  randomUUID_def all_exercises_def scan_exercise_def classify_def liftKeywords_def
  currentBest_def addPR_def show_nat.simps Let_def

lemmas data_defs = mk_exercise_def mk_program_def one_day_def coach1_def client1_def link1_def
  store_def squat_ex_def bench_ex_def base_prog_def commented_prog_def today0_def

lemmas sweep_data = sweep_prog_def vid_a_def vid_b_def sweep_world_def eight_days_def

section \<open>The expiry sweep\<close>

subsection \<open>Scrubbing the programs of one record\<close>

lemma unchanged_blank_week:
  assumes "\<not> changed r ws"
  shows "map (blank_week r) ws = ws"
proof -
  have "blank_week r w = w" if "w \<in> set ws" for w
  proof -
    have "blank_day r d = d" if "d \<in> set (days w)" for d
    proof -
      have "\<forall>ex \<in> set (exercises d). blank_exercise r ex = ex"
        using assms \<open>w \<in> set ws\<close> that by (auto simp: changed_def blank_exercise_def)
      then have "map (blank_exercise r) (exercises d) = exercises d"
        by (simp add: map_idI)
      then show ?thesis by (simp add: blank_day_def)
    qed
    then have "map (blank_day r) (days w) = days w" by (simp add: map_idI)
    then show ?thesis by (simp add: blank_week_def)
  qed
  then show ?thesis by (simp add: map_idI)
qed

text \<open>Under a primary key, a selection by key has at most one row.\<close>

lemma filter_key_distinct:
  "distinct (map f xs) \<Longrightarrow>
     filter (\<lambda>x. f x = k) xs = [] \<or> (\<exists>p. p \<in> set xs \<and> f p = k \<and> filter (\<lambda>x. f x = k) xs = [p])"
proof (induction xs)
  case Nil
  then show ?case by simp
next
  case (Cons x xs)
  show ?case
  proof (cases "f x = k")
    case True
    from Cons.prems have "f x \<notin> f ` set xs" by simp
    with True have "\<forall>y \<in> set xs. f y \<noteq> k" by blast
    then have "filter (\<lambda>x. f x = k) xs = []" by (simp add: filter_empty_conv)
    with True show ?thesis by simp
  next
    case False
    with Cons show ?thesis by auto
  qed
qed

lemma update_weeks_distinct:
  assumes "distinct (map prog_id ps)" and "p \<in> set ps" and "prog_id p = programId r"
  shows "update_weeks (prog_id p) (map (blank_week r) (weeks p)) ps = map (scrubbed r) ps"
proof -
  have "q = p" if "q \<in> set ps" "prog_id q = prog_id p" for q
    using assms(1,2) that by (meson distinct_map inj_onD)
  then show ?thesis
    using assms(3) by (auto simp: update_weeks_def scrubbed_def)
qed

lemma scrub_distinct:
  assumes "distinct (map prog_id (programs s))"
    and "TraverseWeeks (programId r) \<notin> failing s" and "UpdatePrograms (programId r) \<notin> failing s"
  shows "scrub_programs r (filter (\<lambda>p. prog_id p = programId r) (programs s)) s
           = Inr (s\<lparr>programs := map (scrubbed r) (programs s)\<rparr>)"
proof -
  from filter_key_distinct[OF assms(1), of "programId r"]
  consider "filter (\<lambda>p. prog_id p = programId r) (programs s) = []"
    | p where "p \<in> set (programs s)" "prog_id p = programId r"
        "filter (\<lambda>p. prog_id p = programId r) (programs s) = [p]"
    by blast
  then show ?thesis
  proof cases
    case 1
    then have "\<forall>p \<in> set (programs s). prog_id p \<noteq> programId r"
      by (simp add: filter_empty_conv)
    then have "map (scrubbed r) (programs s) = programs s"
      by (simp add: map_idI scrubbed_def)
    with 1 show ?thesis by simp
  next
    case 2
    show ?thesis
    proof (cases "changed r (weeks p)")
      case True
      with 2 assms(2,3) update_weeks_distinct[OF assms(1) 2(1,2)] show ?thesis by simp
    next
      case False
      then have eq: "map (blank_week r) (weeks p) = weeks p" by (rule unchanged_blank_week)
      have "q = p" if "q \<in> set (programs s)" "prog_id q = programId r" for q
        using assms(1) 2(1,2) that by (metis distinct_map inj_onD)
      then have "map (scrubbed r) (programs s) = programs s"
        using eq by (auto simp: scrubbed_def intro!: map_idI)
      with 2 False assms(2) show ?thesis by simp
    qed
  qed
qed

text \<open>No step before the final deletion touches the table of uploads.\<close>

lemma scrub_programs_uploads:
  "(case scrub_programs r ps s of
      Inl es \<Rightarrow> videoUploads (snd es) = videoUploads s
    | Inr s' \<Rightarrow> videoUploads s' = videoUploads s)"
proof (induction ps arbitrary: s)
  case Nil
  show ?case by simp
next
  case (Cons p ps)
  from Cons[of s]
    Cons[of "s\<lparr>programs := update_weeks (prog_id p) (map (blank_week r) (weeks p)) (programs s)\<rparr>"]
  show ?case by (auto split: sum.splits)
qed

lemma process_record_failure_uploads:
  assumes "process_record r s = Inl (e, s')"
  shows "videoUploads s' = videoUploads s"
proof (cases "filename r \<in> files s \<and> filename r \<in> unlink_denied s")
  case True
  with assms show ?thesis by (simp add: process_record_def unlinkSync_def)
next
  case False
  define s1 where "s1 = (if filename r \<in> files s then s\<lparr>files := files s - {filename r}\<rparr> else s)"
  have u: "(if filename r \<in> files s then unlinkSync (filename r) s else Inr s) = Inr s1"
    using False by (auto simp: unlinkSync_def s1_def)
  have v1: "videoUploads s1 = videoUploads s" by (simp add: s1_def)
  show ?thesis
  proof (cases "SelectPrograms (programId r) \<in> failing s1")
    case True
    with assms u v1 show ?thesis by (auto simp: process_record_def)
  next
    case nosel: False
    show ?thesis
    proof (cases "scrub_programs r (filter (\<lambda>p. prog_id p = programId r) (programs s1)) s1")
      case (Inl es)
      with assms u nosel have "es = (e, s')" by (simp add: process_record_def)
      with Inl scrub_programs_uploads[where r = r and ps = "filter (\<lambda>p. prog_id p = programId r) (programs s1)" and s = s1] v1
      show ?thesis by simp
    next
      case (Inr s2)
      with assms u nosel have "s' = s2"
        by (auto simp: process_record_def split: if_splits)
      with Inr scrub_programs_uploads[where r = r and ps = "filter (\<lambda>p. prog_id p = programId r) (programs s1)" and s = s1] v1
      show ?thesis by simp
    qed
  qed
qed

subsection \<open>Claims about the sweep\<close>

text \<open>
  C1 (as amended). A failure while processing one selected artifact ends the sweep.
  When the artifacts \<open>xs\<close> before it were processed and led to state \<open>s1\<close>, and a step of
  processing \<open>r\<close> throws there and leaves state \<open>s2\<close>, then the sweep over the whole batch
  \<open>xs @ r # ys\<close> returns \<open>s2\<close> with the error logged: none of the artifacts \<open>ys\<close> after the
  failing one is processed, whatever they are. The failing artifact may be processed
  in part, but the table of uploads in \<open>s2\<close> is that of \<open>s1\<close>: the record of the failing
  artifact and the records of the artifacts after it still exist.
\<close>

theorem sweep_stops_at_failure:
  assumes "sweep_loop xs s = (s1, None)" and "process_record r s1 = Inl (e, s2)"
  shows "sweep_loop (xs @ r # ys) s = (s2, Some e) \<and> videoUploads s2 = videoUploads s1"
proof -
  have "sweep_loop (xs @ r # ys) s = (s2, Some e)"
    using assms
  proof (induction xs arbitrary: s)
    case Nil
    then show ?case by simp
  next
    case (Cons x xs)
    then show ?case by (cases "process_record x s") auto
  qed
  with process_record_failure_uploads[OF assms(2)] show ?thesis by simp
qed

text \<open>
  Witness for C1: the second upload is processed first and succeeds. For the first
  upload the file is removed and exercise \<open>e1\<close> is blanked, then the deletion of its
  record throws: the sweep ends there, with the third upload untouched and the records
  of the first and the third upload still in the table.
\<close>

theorem sweep_stops_at_failure_witness:
  "sweep_loop ([vid_b] @ vid_a # [vid_c]) stuck_world
     = (stuck_world\<lparr>files := {''c.mp4''},
          programs := [mk_program (Some ''link1'')
             (one_day [mk_exercise ''e1'' ''Squat'' ''100'' True,
                       (mk_exercise ''e2'' ''Bench Press'' ''60'' True)\<lparr>videoUrl := ''/api/videos/a.mp4''\<rparr>])],
          videoUploads := [vid_a, vid_c]\<rparr>,
        Some (Thrown (DeleteUpload ''v1''))) \<and>
   videoUploads (stuck_world\<lparr>files := {''c.mp4''},
          programs := [mk_program (Some ''link1'')
             (one_day [mk_exercise ''e1'' ''Squat'' ''100'' True,
                       (mk_exercise ''e2'' ''Bench Press'' ''60'' True)\<lparr>videoUrl := ''/api/videos/a.mp4''\<rparr>])],
          videoUploads := [vid_a, vid_c]\<rparr>)
     = videoUploads (stuck_world\<lparr>files := {''a.mp4'', ''c.mp4''}, videoUploads := [vid_a, vid_c]\<rparr>)"
proof -
  have h1: "sweep_loop [vid_b] stuck_world
              = (stuck_world\<lparr>files := {''a.mp4'', ''c.mp4''}, videoUploads := [vid_a, vid_c]\<rparr>, None)"
    by (simp add: sweep_defs data_defs sweep_data stuck_world_def vid_c_def insert_Diff_if)
  have h2: "process_record vid_a (stuck_world\<lparr>files := {''a.mp4'', ''c.mp4''}, videoUploads := [vid_a, vid_c]\<rparr>)
              = Inl (Thrown (DeleteUpload ''v1''),
                     stuck_world\<lparr>files := {''c.mp4''},
                       programs := [mk_program (Some ''link1'')
                          (one_day [mk_exercise ''e1'' ''Squat'' ''100'' True,
                                    (mk_exercise ''e2'' ''Bench Press'' ''60'' True)\<lparr>videoUrl := ''/api/videos/a.mp4''\<rparr>])],
                       videoUploads := [vid_a, vid_c]\<rparr>)"
    by (simp add: sweep_defs data_defs sweep_data stuck_world_def vid_c_def insert_Diff_if)
  show ?thesis
    using sweep_stops_at_failure[OF h1 h2, of "[vid_c]"] .
qed

text \<open>
  Counterexample to C1 as stated: both uploads are expired and selected; the first one
  fails, and the second one, which comes after it in the batch, is not processed: its
  record and its file are still there after the sweep.
\<close>

theorem sweep_failure_counterexample:
  "snd (cleanupExpiredVideos eight_days (sweep_world {''a.mp4''})) = Some (StorageIOError ''a.mp4'') \<and>
   vid_b \<in> set (videoUploads (fst (cleanupExpiredVideos eight_days (sweep_world {''a.mp4''})))) \<and>
   ''b.mp4'' \<in> files (fst (cleanupExpiredVideos eight_days (sweep_world {''a.mp4''})))"
  by (simp add: sweep_defs data_defs sweep_data)

text \<open>
  C4 (as amended). When no step of processing a selected artifact throws (its file can
  be removed or is already missing, and the database calls and the traversal for its
  program id and record id succeed) and program ids are unique, processing the artifact
  yields exactly this state: the file is gone; in the stored program whose id is the
  artifact's program id, every exercise whose id is the artifact's exercise id and whose
  non-empty \<open>videoUrl\<close> contains the artifact's filename has \<open>videoUrl\<close> equal to the empty
  string, and every other exercise and program is unchanged; the artifact's record no
  longer exists.
\<close>

theorem process_record_scrubs:
  assumes "filename r \<notin> files s \<or> filename r \<notin> unlink_denied s"
    and "distinct (map prog_id (programs s))"
    and "failing s \<inter> {SelectPrograms (programId r), TraverseWeeks (programId r),
                         UpdatePrograms (programId r), DeleteUpload (vu_id r)} = {}"
  shows "process_record r s =
           Inr (s\<lparr>files := files s - {filename r},
                  programs := map (scrubbed r) (programs s),
                  videoUploads := filter (\<lambda>v. vu_id v \<noteq> vu_id r) (videoUploads s)\<rparr>)"
proof -
  from assms(3) have f: "SelectPrograms (programId r) \<notin> failing s" "TraverseWeeks (programId r) \<notin> failing s"
    "UpdatePrograms (programId r) \<notin> failing s" "DeleteUpload (vu_id r) \<notin> failing s"
    by auto
  show ?thesis
  proof (cases "filename r \<in> files s")
    case True
    with assms(1) have ok: "unlinkSync (filename r) s = Inr (s\<lparr>files := files s - {filename r}\<rparr>)"
      by (simp add: unlinkSync_def)
    have d: "distinct (map prog_id (programs (s\<lparr>files := files s - {filename r}\<rparr>)))"
      using assms(2) by simp
    have "scrub_programs r (filter (\<lambda>p. prog_id p = programId r) (programs s))
            (s\<lparr>files := files s - {filename r}\<rparr>)
          = Inr (s\<lparr>files := files s - {filename r}, programs := map (scrubbed r) (programs s)\<rparr>)"
      using scrub_distinct[OF d, of r] f by simp
    then show ?thesis
      using True ok f by (simp add: process_record_def)
  next
    case False
    then have "files s - {filename r} = files s" by auto
    then show ?thesis
      using False scrub_distinct[OF assms(2), of r] f by (simp add: process_record_def)
  qed
qed

text \<open>
  Witness for C4: the first upload of the example store is processed; exercise \<open>e1\<close> is
  blanked and the record is gone.
\<close>

theorem process_record_scrubs_witness:
  "process_record vid_a (sweep_world {}) =
     Inr ((sweep_world {})\<lparr>files := {''b.mp4''},
            programs := [mk_program (Some ''link1'')
               (one_day [mk_exercise ''e1'' ''Squat'' ''100'' True,
                         (mk_exercise ''e2'' ''Bench Press'' ''60'' True)\<lparr>videoUrl := ''/api/videos/a.mp4''\<rparr>])],
            videoUploads := [vid_b]\<rparr>)"
proof -
  have h1: "filename vid_a \<notin> files (sweep_world {}) \<or> filename vid_a \<notin> unlink_denied (sweep_world {})"
    by (simp add: data_defs sweep_data)
  have h2: "distinct (map prog_id (programs (sweep_world {})))"
    by (simp add: data_defs sweep_data)
  have h3: "failing (sweep_world {}) \<inter> {SelectPrograms (programId vid_a), TraverseWeeks (programId vid_a),
                         UpdatePrograms (programId vid_a), DeleteUpload (vu_id vid_a)} = {}"
    by (simp add: data_defs sweep_data)
  show ?thesis
    using process_record_scrubs[OF h1 h2 h3] by (simp add: sweep_defs data_defs sweep_data insert_Diff_if)
qed

text \<open>
  Counterexample to C4 as stated: after the sweep has processed both uploads, exercise
  \<open>e2\<close> of the stored program still shows the first upload's file, because its id is not
  the exercise id of that upload.
\<close>

theorem sweep_reference_counterexample:
  "videoUploads (fst (cleanupExpiredVideos eight_days (sweep_world {}))) = [] \<and>
   map (\<lambda>p. map (\<lambda>ex. (ex_id ex, videoUrl ex)) (all_exercises p))
       (programs (fst (cleanupExpiredVideos eight_days (sweep_world {}))))
     = [[(''e1'', []), (''e2'', ''/api/videos/a.mp4'')]] \<and>
   str_includes ''/api/videos/a.mp4'' (filename vid_a)"
  by (simp add: sweep_defs data_defs sweep_data)

section \<open>Joining a coach\<close>

text \<open>
  C5 (as amended). For a join request whose code resolves to a coach, made by a client
  who holds no link at all: if the coach's number of links is at least the coach's
  limit, where a stored limit of 0 counts as 1, the request is rejected with status 403
  and the message naming the plan and the limit, and the store is unchanged, so no link
  is created. The limit 999 is left aside here. The code and the first character of the
  plan are strings whose capitals are characters of the model.
\<close>

theorem join_coach_capacity:
  assumes coach: "find (\<lambda>p. coachCode p = toUpperCase code \<and> prof_role p = Coach) (profiles s) = Some coach"
    and row: "find (\<lambda>p. prof_id p = prof_id coach) (profiles s) = Some cp"
    and nolink: "\<forall>c \<in> set (clients s). clientProfileId c \<noteq> cpid"
    and full: "(if planUserLimit cp = 0 then 1 else planUserLimit cp)
                 \<le> int (length (filter (\<lambda>c. cl_coachId c = prof_id coach) (clients s)))"
    and bounded: "planUserLimit cp \<noteq> 999"
    and chars: "\<not> wide_upper code" "\<not> wide_upper (take 1 (plan cp))"
  shows "join_coach code cpid clientName s =
           (Rejected 403
              (''This coach has reached their '' @ planName (if plan cp = [] then ''free'' else plan cp) @
               '' plan limit of '' @ show_int (if planUserLimit cp = 0 then 1 else planUserLimit cp) @
               '' client'' @ (if (if planUserLimit cp = 0 then 1 else planUserLimit cp) \<noteq> 1 then ''s'' else []) @
               ''. The coach needs to upgrade their plan to accept more clients.''), s)"
proof -
  have e1: "filter (\<lambda>c. cl_coachId c = prof_id coach \<and> clientProfileId c = cpid) (clients s) = []"
    using nolink by (simp add: filter_empty_conv)
  have e2: "filter (\<lambda>c. clientProfileId c = cpid) (clients s) = []"
    using nolink by (simp add: filter_empty_conv)
  have e3: "capacity_rejection coach s =
      Some (capacity_message (if plan cp = [] then ''free'' else plan cp)
              (if planUserLimit cp = 0 then 1 else planUserLimit cp))"
    using row full by (simp add: capacity_rejection_def Let_def)
  show ?thesis
    using coach e1 e2 e3 by (simp add: join_coach_def capacity_message_def)
qed

text \<open>
  Witness for C5: a new client asks to join the coach who has five links on a limit of
  five.
\<close>

theorem join_coach_capacity_witness:
  "join_coach ''ful555'' ''newbie'' ''Nia'' join_world =
     (Rejected 403
        ''This coach has reached their Starter plan limit of 5 clients. The coach needs to upgrade their plan to accept more clients.'',
      join_world)"
proof -
  have h1: "find (\<lambda>p. coachCode p = toUpperCase ''ful555'' \<and> prof_role p = Coach) (profiles join_world)
              = Some full_coach"
    by (simp add: data_defs full_coach_def zero_coach_def five_links_def join_world_def str_defs)
  have h2: "find (\<lambda>p. prof_id p = prof_id full_coach) (profiles join_world) = Some full_coach"
    by (simp add: data_defs full_coach_def zero_coach_def five_links_def join_world_def)
  have h3: "\<forall>c \<in> set (clients join_world). clientProfileId c \<noteq> ''newbie''"
    by (auto simp: data_defs full_coach_def zero_coach_def five_links_def join_world_def)
  have h4: "(if planUserLimit full_coach = 0 then 1 else planUserLimit full_coach)
              \<le> int (length (filter (\<lambda>c. cl_coachId c = prof_id full_coach) (clients join_world)))"
    by (simp add: data_defs full_coach_def zero_coach_def five_links_def join_world_def filter_map o_def)
  have h5: "planUserLimit full_coach \<noteq> 999"
    by (simp add: full_coach_def)
  have h6: "\<not> wide_upper ''ful555''" "\<not> wide_upper (take 1 (plan full_coach))"
    by (simp_all add: wide_upper_def full_coach_def)
  show ?thesis
    using join_coach_capacity[OF h1 h2 h3 h4 h5 h6, of "''Nia''"]
    by (simp add: full_coach_def planName_def show_int_def show_nat.simps str_defs)
qed

text \<open>
  Counterexample to C5 as stated, two requests on the same store. A coach whose stored
  limit is 0 has reached that limit with no links, yet a new client is joined. A client
  linked to another coach is turned away from the full coach with the message about the
  existing coach and status 400, not with the capacity message.
\<close>

theorem join_coach_counterexample:
  "planUserLimit zero_coach \<le> int (length (filter (\<lambda>c. cl_coachId c = prof_id zero_coach) (clients join_world))) \<and>
   fst (join_coach ''zer222'' ''newbie'' ''Nia'' join_world) =
     Joined ''coach3'' ''Flo''
       \<lparr>cl_id = ''uuid-0'', cl_coachId = ''coach3'', clientProfileId = ''newbie'', cl_name = ''Nia''\<rparr> \<and>
   planUserLimit full_coach \<le> int (length (filter (\<lambda>c. cl_coachId c = prof_id full_coach) (clients join_world))) \<and>
   filter (\<lambda>c. cl_coachId c = prof_id full_coach \<and> clientProfileId c = ''client1'') (clients join_world) = [] \<and>
   fst (join_coach ''ful555'' ''client1'' ''Sam'' join_world) =
     Rejected 400 ''You already have a coach. Remove your current coach before joining a new one.''"
  by (simp add: join_defs data_defs full_coach_def zero_coach_def five_links_def join_world_def str_defs
      filter_map o_def)

text \<open>
  The limit 999. The payment webhook stores 999 as the limit of the \<^verbatim>\<open>enterprise\<close> plan
  and the profile screen shows a limit of 999 as \<^verbatim>\<open>Unlimited\<close>; the join handler compares
  it with the number of links like any other limit, so the thousandth client of such a
  coach is rejected for capacity.
\<close>

lemma enterprise_limit_rejects:
  "join_coach ''big999'' ''newbie'' ''Nia'' enterprise_world =
     (Rejected 403
        ''This coach has reached their Enterprise plan limit of 999 clients. The coach needs to upgrade their plan to accept more clients.'',
      enterprise_world)"
  by (simp add: join_defs data_defs big_coach_def many_links_def enterprise_world_def str_defs
      filter_map o_def)

section \<open>Saving a program: notifications\<close>

subsection \<open>What the storage operations leave alone\<close>

lemma addNotification_other [simp]:
  "prs (addNotification me d s) = prs s"
  "clients (addNotification me d s) = clients s"
  "programs (addNotification me d s) = programs s"
  by (simp_all add: addNotification_def)

lemma fold_addNotification_other [simp]:
  "prs (fold (addNotification me) ds s) = prs s"
  "clients (fold (addNotification me) ds s) = clients s"
  "programs (fold (addNotification me) ds s) = programs s"
  by (induction ds arbitrary: s) simp_all

lemma put_program_other [simp]:
  "prs (put_program p s) = prs s"
  "clients (put_program p s) = clients s"
  "notifications (put_program p s) = notifications s"
  by (simp_all add: put_program_def)

lemma resolve_target_put_program [simp]:
  "resolve_target isCoach me prog (put_program p s) = resolve_target isCoach me prog s"
  by (simp add: resolve_target_def getClients_def cong: option.case_cong if_cong)

text \<open>The update of a stored program succeeds.\<close>

lemma updateProgram_stored:
  "getProgram (prog_id p) s = Some old \<Longrightarrow> updateProgram p s = Inr (put_program p s)"
  by (simp add: updateProgram_def getProgram_def)

lemma addPR_other:
  "addPR me t w u d n s = Inr s' \<Longrightarrow>
     notifications s' = notifications s \<and> programs s' = programs s \<and> clients s' = clients s"
  by (auto simp: addPR_def split: option.splits)

lemma scan_loop_notifications:
  "notifications (fst (scan_loop me L prog today exs s)) = notifications s"
proof (induction exs arbitrary: s)
  case Nil
  then show ?case by simp
next
  case (Cons ex exs)
  then show ?case
    by (auto split: option.splits sum.splits prod.splits dest: addPR_other)
qed

subsection \<open>The rows that the drafts of a save become\<close>

lemma fold_addNotification:
  "\<exists>ns. notifications (fold (addNotification me) ds s) = notifications s @ ns \<and>
        map n_profileId ns = map (\<lambda>d. addressee (targetProfileId d) me) ds \<and>
        map ntype ns = map d_type ds \<and>
        map message ns = map d_message ds \<and>
        map fromRole ns = map d_fromRole ds"
proof (induction ds arbitrary: s)
  case Nil
  then show ?case by simp
next
  case (Cons d ds)
  obtain ns where ns: "notifications (fold (addNotification me) ds (addNotification me d s))
        = notifications (addNotification me d s) @ ns"
    "map n_profileId ns = map (\<lambda>d. addressee (targetProfileId d) me) ds"
    "map ntype ns = map d_type ds" "map message ns = map d_message ds"
    "map fromRole ns = map d_fromRole ds"
    using Cons.IH[of "addNotification me d s"] by blast
  obtain row where row: "notifications (addNotification me d s) = notifications s @ [row]"
    "n_profileId row = addressee (targetProfileId d) me" "ntype row = d_type d"
    "message row = d_message d" "fromRole row = d_fromRole d"
    by (simp add: addNotification_def)
  show ?case
    by (rule exI[of _ "row # ns"]) (simp add: ns row)
qed

lemma save_notifications_eq:
  assumes "getProgram (prog_id prog) s = Some old"
  shows "notifications (fst (save isCoach me today prog s)) =
         notifications (fold (addNotification me)
           (save_notifications isCoach (resolve_target isCoach me prog s) prog old) (put_program prog s))"
  using assms by (simp add: save_def Let_def scan_loop_notifications updateProgram_stored)

lemma draft_targets:
  "d \<in> set (save_notifications isCoach target prog old) \<Longrightarrow> targetProfileId d = target"
  by (auto simp: save_notifications_def week_notifications_def day_notifications_def
        exercise_notifications_def draft_def split: option.splits if_splits)

subsection \<open>Which old exercise a new exercise is compared with\<close>

lemma find_SomeD: "find P xs = Some x \<Longrightarrow> P x \<and> x \<in> set xs"
  by (auto simp: find_Some_iff)

lemma find_oldEx_SomeD:
  assumes "find_oldEx oldProgram week day ex = Some oldEx"
  shows "ex_id oldEx = ex_id ex \<and>
         (\<exists>oldWeek \<in> set (weeks oldProgram). weekNumber oldWeek = weekNumber week \<and>
            (\<exists>oldDay \<in> set (days oldWeek). dayNumber oldDay = dayNumber day \<and>
               oldEx \<in> set (exercises oldDay)))"
proof -
  from assms obtain oldWeek where w: "find (\<lambda>w. weekNumber w = weekNumber week) (weeks oldProgram) = Some oldWeek"
    by (auto simp: find_oldEx_def split: option.splits)
  with assms obtain oldDay where d: "find (\<lambda>d. dayNumber d = dayNumber day) (days oldWeek) = Some oldDay"
    by (auto simp: find_oldEx_def split: option.splits)
  with assms w have e: "find (\<lambda>e. ex_id e = ex_id ex) (exercises oldDay) = Some oldEx"
    by (simp add: find_oldEx_def)
  from find_SomeD[OF w] find_SomeD[OF d] find_SomeD[OF e] show ?thesis by blast
qed

lemma find_distinct_key:
  assumes "distinct (map f xs)" and "x \<in> set xs" and "k = f x"
  shows "find (\<lambda>y. f y = k) xs = Some x"
  using assms
proof (induction xs)
  case Nil
  then show ?case by simp
next
  case (Cons a xs)
  show ?case
  proof (cases "a = x")
    case True
    with Cons.prems show ?thesis by simp
  next
    case False
    with Cons.prems have "x \<in> set xs" by simp
    moreover from Cons.prems have "f a \<notin> f ` set xs" by simp
    ultimately have "f a \<noteq> f x" by blast
    with Cons \<open>x \<in> set xs\<close> show ?thesis by simp
  qed
qed

text \<open>
  With week numbers, day numbers and exercise ids unique within their lists, an exercise
  of the old program is found again from its week number, day number and id.
\<close>

lemma find_oldEx_self:
  assumes "w0 \<in> set (weeks old)" and "d0 \<in> set (days w0)" and "e0 \<in> set (exercises d0)"
    and "distinct (map weekNumber (weeks old))"
    and "\<forall>w \<in> set (weeks old). distinct (map dayNumber (days w))"
    and "\<forall>w \<in> set (weeks old). \<forall>d \<in> set (days w). distinct (map ex_id (exercises d))"
    and "weekNumber wk = weekNumber w0" and "dayNumber dy = dayNumber d0" and "ex_id ex = ex_id e0"
  shows "find_oldEx old wk dy ex = Some e0"
proof -
  have 1: "find (\<lambda>w. weekNumber w = weekNumber wk) (weeks old) = Some w0"
    using assms(1,4,7) by (intro find_distinct_key) auto
  have 2: "find (\<lambda>d. dayNumber d = dayNumber dy) (days w0) = Some d0"
    using assms(1,2,5,8) by (intro find_distinct_key) auto
  have 3: "find (\<lambda>e. ex_id e = ex_id ex) (exercises d0) = Some e0"
    using assms(1,2,3,6,9) by (intro find_distinct_key) auto
  show ?thesis by (simp add: find_oldEx_def 1 2 3)
qed

subsection \<open>A save that changes one coach comment\<close>

lemma concat_map_update:
  assumes "i < length xs" and "\<forall>j < length xs. j \<noteq> i \<longrightarrow> g (xs ! j) = []"
  shows "concat (map g (xs[i := y])) = g y"
  using assms
proof (induction xs arbitrary: i)
  case Nil
  then show ?case by simp
next
  case (Cons a xs)
  show ?case
  proof (cases i)
    case 0
    have "\<forall>x \<in> set xs. g x = []"
    proof
      fix x assume "x \<in> set xs"
      then obtain n where "n < length xs" "xs ! n = x" by (auto simp: in_set_conv_nth)
      with Cons.prems(2)[rule_format, of "Suc n"] 0 show "g x = []" by simp
    qed
    then have "concat (map g xs) = []" by simp
    with 0 show ?thesis by simp
  next
    case (Suc n)
    from Cons.prems(2)[rule_format, of 0] Suc have a: "g a = []" by simp
    have "\<forall>j < length xs. j \<noteq> n \<longrightarrow> g (xs ! j) = []"
      using Cons.prems(2)[rule_format, of "Suc j" for j] Suc by auto
    with Cons.IH[of n] Cons.prems(1) Suc a show ?thesis by simp
  qed
qed

lemma coach_same_comment:
  "coachComment ex = coachComment e0 \<Longrightarrow> exercise_notifications True t prog (Some e0) ex = []"
  by (simp add: exercise_notifications_def)

lemma day_unchanged:
  assumes "w0 \<in> set (weeks old)" and "d0 \<in> set (days w0)"
    and "distinct (map weekNumber (weeks old))"
    and "\<forall>w \<in> set (weeks old). distinct (map dayNumber (days w))"
    and "\<forall>w \<in> set (weeks old). \<forall>d \<in> set (days w). distinct (map ex_id (exercises d))"
    and "weekNumber wk = weekNumber w0"
  shows "day_notifications True t prog old wk d0 = []"
proof -
  have "exercise_notifications True t prog (find_oldEx old wk d0 ex) ex = []"
    if "ex \<in> set (exercises d0)" for ex
    using find_oldEx_self[OF assms(1,2) that assms(3,4,5,6) refl refl]
    by (simp add: coach_same_comment)
  then show ?thesis by (simp add: day_notifications_def)
qed

lemma week_unchanged:
  assumes "w0 \<in> set (weeks old)"
    and "distinct (map weekNumber (weeks old))"
    and "\<forall>w \<in> set (weeks old). distinct (map dayNumber (days w))"
    and "\<forall>w \<in> set (weeks old). \<forall>d \<in> set (days w). distinct (map ex_id (exercises d))"
  shows "week_notifications True t prog old w0 = []"
  using day_unchanged[OF assms(1) _ assms(2,3,4) refl]
  by (simp add: week_notifications_def)

lemma single_comment_drafts:
  assumes i: "i < length (weeks old)" and w: "weeks old ! i = w"
    and j: "j < length (days w)" and d: "days w ! j = d"
    and k: "k < length (exercises d)" and e: "exercises d ! k = e"
    and new: "weeks prog =
       (weeks old)[i := w\<lparr>days := (days w)[j := d\<lparr>exercises := (exercises d)[k := e\<lparr>coachComment := c\<rparr>]\<rparr>]\<rparr>]"
    and dw: "distinct (map weekNumber (weeks old))"
    and dd: "\<forall>w \<in> set (weeks old). distinct (map dayNumber (days w))"
    and de: "\<forall>w \<in> set (weeks old). \<forall>d \<in> set (days w). distinct (map ex_id (exercises d))"
    and name: "ex_name e \<noteq> []" and empty: "coachComment e = []" and c: "c \<noteq> []"
  shows "save_notifications True t prog old =
           [draft t Comment ''New Coach Feedback''
              (''Coach commented on '' @ ex_name e @ '': '' @ [dquote] @ take 60 c @ [dquote])
              prog (e\<lparr>coachComment := c\<rparr>) Coach]"
proof -
  let ?e' = "e\<lparr>coachComment := c\<rparr>"
  let ?d' = "d\<lparr>exercises := (exercises d)[k := ?e']\<rparr>"
  let ?w' = "w\<lparr>days := (days w)[j := ?d']\<rparr>"
  have win: "w \<in> set (weeks old)" using i w by (metis nth_mem)
  have din: "d \<in> set (days w)" using j d by (metis nth_mem)
  have ein: "e \<in> set (exercises d)" using k e by (metis nth_mem)
  have ex_other:
    "exercise_notifications True t prog (find_oldEx old ?w' ?d' (exercises d ! n)) (exercises d ! n) = []"
    if "n < length (exercises d)" for n
  proof -
    have "exercises d ! n \<in> set (exercises d)" using that by simp
    from find_oldEx_self[OF win din this dw dd de, of ?w' ?d' "exercises d ! n"]
    show ?thesis by (simp add: coach_same_comment)
  qed
  have ex_new: "exercise_notifications True t prog (find_oldEx old ?w' ?d' ?e') ?e' =
      [draft t Comment ''New Coach Feedback''
         (''Coach commented on '' @ ex_name e @ '': '' @ [dquote] @ take 60 c @ [dquote]) prog ?e' Coach]"
    using find_oldEx_self[OF win din ein dw dd de, of ?w' ?d' ?e'] name empty c
    by (simp add: exercise_notifications_def)
  have day_new: "day_notifications True t prog old ?w' ?d' =
      [draft t Comment ''New Coach Feedback''
         (''Coach commented on '' @ ex_name e @ '': '' @ [dquote] @ take 60 c @ [dquote]) prog ?e' Coach]"
    using concat_map_update[OF k,
        of "\<lambda>ex. exercise_notifications True t prog (find_oldEx old ?w' ?d' ex) ex" ?e']
      ex_other ex_new
    by (simp add: day_notifications_def)
  have day_other: "day_notifications True t prog old ?w' (days w ! n) = []"
    if "n < length (days w)" for n
    using day_unchanged[OF win _ dw dd de, of "days w ! n" ?w'] that by simp
  have week_new: "week_notifications True t prog old ?w' = day_notifications True t prog old ?w' ?d'"
    using concat_map_update[OF j, of "day_notifications True t prog old ?w'" ?d'] day_other
    by (simp add: week_notifications_def)
  have week_other: "week_notifications True t prog old (weeks old ! n) = []"
    if "n < length (weeks old)" for n
    using week_unchanged[OF _ dw dd de, of "weeks old ! n"] that by simp
  have "save_notifications True t prog old = week_notifications True t prog old ?w'"
    using concat_map_update[OF i, of "week_notifications True t prog old" ?w'] week_other
    by (simp add: save_notifications_def new)
  then show ?thesis by (simp add: week_new day_new)
qed

subsection \<open>Claims about the notifications of a save\<close>

text \<open>
  C2 (as amended). For every save of a stored program, if no counterpart profile id is
  resolved for the acting role (the target is missing or empty; in particular the actor
  is the coach and no link of the coach has the program's assigned client id), the
  notifications of the save are still persisted, one for each transition the save
  detects, and each of them is addressed to the actor's own profile id. The save is not
  stopped before that: the program is stored, so its update succeeds, and the only later
  exception, that of the scan for records, is caught and logged.
\<close>

theorem save_unresolved_target:
  assumes old: "getProgram (prog_id prog) s = Some old"
    and unresolved: "resolve_target isCoach me prog s = None \<or> resolve_target isCoach me prog s = Some []"
  shows "\<exists>ns. notifications (fst (save isCoach me today prog s)) = notifications s @ ns \<and>
              length ns = length (save_notifications isCoach (resolve_target isCoach me prog s) prog old) \<and>
              (\<forall>n \<in> set ns. n_profileId n = prof_id me)"
proof -
  let ?ds = "save_notifications isCoach (resolve_target isCoach me prog s) prog old"
  obtain ns where ns: "notifications (fold (addNotification me) ?ds (put_program prog s))
        = notifications (put_program prog s) @ ns"
    "map n_profileId ns = map (\<lambda>d. addressee (targetProfileId d) me) ?ds"
    using fold_addNotification[of me ?ds "put_program prog s"] by blast
  have "\<forall>d \<in> set ?ds. addressee (targetProfileId d) me = prof_id me"
    using unresolved by (auto simp: addressee_def dest!: draft_targets)
  then have "map n_profileId ns = map (\<lambda>d. prof_id me) ?ds"
    using ns(2) by (simp cong: map_cong)
  then have len: "length ns = length ?ds" and all: "\<forall>n \<in> set ns. n_profileId n = prof_id me"
    by (metis length_map, metis (no_types, lifting) in_set_conv_nth length_map nth_map)
  show ?thesis
    using ns(1) len all by (auto simp: save_notifications_eq[OF old])
qed

text \<open>
  Witness for C2: the coach comments on a program whose assigned client id has no link.
\<close>

theorem save_unresolved_target_witness:
  "\<exists>ns. notifications (fst (save True coach1 today0 (commented_prog (Some ''gone''))
                              (store [base_prog (Some ''gone'')] [link1] []))) = [] @ ns \<and>
        length ns = 1 \<and> (\<forall>n \<in> set ns. n_profileId n = ''coach1'')"
proof -
  have h1: "getProgram (prog_id (commented_prog (Some ''gone''))) (store [base_prog (Some ''gone'')] [link1] [])
              = Some (base_prog (Some ''gone''))"
    by (simp add: getProgram_def data_defs)
  have h2: "resolve_target True coach1 (commented_prog (Some ''gone'')) (store [base_prog (Some ''gone'')] [link1] []) = None \<or>
            resolve_target True coach1 (commented_prog (Some ''gone'')) (store [base_prog (Some ''gone'')] [link1] []) = Some []"
    by (simp add: resolve_target_def getClients_def data_defs)
  have h3: "length (save_notifications True
               (resolve_target True coach1 (commented_prog (Some ''gone'')) (store [base_prog (Some ''gone'')] [link1] []))
               (commented_prog (Some ''gone'')) (base_prog (Some ''gone''))) = 1"
    by (simp add: save_defs data_defs)
  have h4: "notifications (store [base_prog (Some ''gone'')] [link1] []) = []"
       "prof_id coach1 = ''coach1''"
    by (simp_all add: data_defs)
  show ?thesis
    using save_unresolved_target[OF h1 h2, of today0] unfolding h3 h4 .
qed

text \<open>
  Counterexample to C2 as stated: in that save no counterpart is resolved, and one
  notification is persisted all the same; it is addressed to the coach who made the
  comment.
\<close>

theorem save_unresolved_counterexample:
  "resolve_target True coach1 (commented_prog (Some ''gone'')) (store [base_prog (Some ''gone'')] [link1] []) = None \<and>
   map (\<lambda>n. (n_profileId n, ntype n))
     (notifications (fst (save True coach1 today0 (commented_prog (Some ''gone''))
                            (store [base_prog (Some ''gone'')] [link1] []))))
     = [(''coach1'', Comment)]"
  by (simp add: save_defs data_defs str_defs)

text \<open>
  C3 (as amended). With week numbers, day numbers and exercise ids unique within their
  lists, the diff step pairs an exercise of the new document with exactly the old
  exercise that has the same exercise id, in the old day with the same day number of the
  old week with the same week number. The index of the exercise plays no part: the
  exercise id decides which old exercise a new exercise is compared against.
\<close>

theorem find_oldEx_by_id:
  assumes dw: "distinct (map weekNumber (weeks oldProgram))"
    and dd: "\<forall>w \<in> set (weeks oldProgram). distinct (map dayNumber (days w))"
    and de: "\<forall>w \<in> set (weeks oldProgram). \<forall>d \<in> set (days w). distinct (map ex_id (exercises d))"
  shows "find_oldEx oldProgram week day ex = Some oldEx \<longleftrightarrow>
         ex_id oldEx = ex_id ex \<and>
         (\<exists>oldWeek \<in> set (weeks oldProgram). weekNumber oldWeek = weekNumber week \<and>
            (\<exists>oldDay \<in> set (days oldWeek). dayNumber oldDay = dayNumber day \<and>
               oldEx \<in> set (exercises oldDay)))"
proof
  assume "find_oldEx oldProgram week day ex = Some oldEx"
  then show "ex_id oldEx = ex_id ex \<and>
         (\<exists>oldWeek \<in> set (weeks oldProgram). weekNumber oldWeek = weekNumber week \<and>
            (\<exists>oldDay \<in> set (days oldWeek). dayNumber oldDay = dayNumber day \<and>
               oldEx \<in> set (exercises oldDay)))"
    by (rule find_oldEx_SomeD)
next
  assume r: "ex_id oldEx = ex_id ex \<and>
         (\<exists>oldWeek \<in> set (weeks oldProgram). weekNumber oldWeek = weekNumber week \<and>
            (\<exists>oldDay \<in> set (days oldWeek). dayNumber oldDay = dayNumber day \<and>
               oldEx \<in> set (exercises oldDay)))"
  then obtain oldWeek oldDay where "oldWeek \<in> set (weeks oldProgram)" "weekNumber week = weekNumber oldWeek"
    "oldDay \<in> set (days oldWeek)" "dayNumber day = dayNumber oldDay" "oldEx \<in> set (exercises oldDay)"
    "ex_id ex = ex_id oldEx"
    by auto
  then show "find_oldEx oldProgram week day ex = Some oldEx"
    using dw dd de by (intro find_oldEx_self)
qed

text \<open>
  Witness for C3: after the first row was deleted, the remaining exercise is paired with
  the old exercise of its id.
\<close>

theorem find_oldEx_by_id_witness:
  "find_oldEx (commented_prog None) (hd (weeks (trimmed_prog None)))
     (hd (days (hd (weeks (trimmed_prog None))))) (bench_ex\<lparr>coachComment := ''Good job''\<rparr>)
     = Some (exercises (hd (days (hd (weeks (commented_prog None))))) ! 1)"
proof -
  have h: "distinct (map weekNumber (weeks (commented_prog None)))"
    "\<forall>w \<in> set (weeks (commented_prog None)). distinct (map dayNumber (days w))"
    "\<forall>w \<in> set (weeks (commented_prog None)). \<forall>d \<in> set (days w). distinct (map ex_id (exercises d))"
    by (simp_all add: data_defs)
  have r: "ex_id (exercises (hd (days (hd (weeks (commented_prog None))))) ! 1)
             = ex_id (bench_ex\<lparr>coachComment := ''Good job''\<rparr>) \<and>
     (\<exists>oldWeek \<in> set (weeks (commented_prog None)).
         weekNumber oldWeek = weekNumber (hd (weeks (trimmed_prog None))) \<and>
        (\<exists>oldDay \<in> set (days oldWeek).
            dayNumber oldDay = dayNumber (hd (days (hd (weeks (trimmed_prog None))))) \<and>
            exercises (hd (days (hd (weeks (commented_prog None))))) ! 1 \<in> set (exercises oldDay)))"
    by (simp add: data_defs trimmed_prog_def)
  show ?thesis
    using find_oldEx_by_id[OF h, THEN iffD2, OF r] .
qed

text \<open>
  Counterexample to C3 as stated: the new day holds one exercise, at index 0. It is
  compared with the old exercise at index 1, which has its id, and not with the old
  exercise at index 0; so the save finds no change, where the comparison by position
  would find a new coach comment.
\<close>

theorem positional_pairing_counterexample:
  "find_oldEx (commented_prog None) (hd (weeks (trimmed_prog None)))
      (hd (days (hd (weeks (trimmed_prog None)))))
      (exercises (hd (days (hd (weeks (trimmed_prog None))))) ! 0)
     = Some (exercises (hd (days (hd (weeks (commented_prog None))))) ! 1) \<and>
   exercises (hd (days (hd (weeks (commented_prog None))))) ! 1
     \<noteq> exercises (hd (days (hd (weeks (commented_prog None))))) ! 0 \<and>
   coachComment (exercises (hd (days (hd (weeks (trimmed_prog None))))) ! 0)
     \<noteq> coachComment (exercises (hd (days (hd (weeks (commented_prog None))))) ! 0) \<and>
   save_notifications True None (trimmed_prog None) (commented_prog None) = []"
  by (simp add: save_defs data_defs trimmed_prog_def)

text \<open>
  C6 (as amended). For every save, an exercise of the new document whose id no exercise
  of the old snapshot has is skipped by the diff: it yields no notification, whatever
  its fields are.
\<close>

theorem new_exercise_skipped:
  assumes "\<forall>ow \<in> set (weeks old). \<forall>od \<in> set (days ow). \<forall>oe \<in> set (exercises od). ex_id oe \<noteq> ex_id ex"
  shows "exercise_notifications isCoach target prog (find_oldEx old week day ex) ex = []"
proof (cases "find_oldEx old week day ex")
  case None
  then show ?thesis by (simp add: exercise_notifications_def)
next
  case (Some oe)
  from find_oldEx_SomeD[OF Some] assms show ?thesis by blast
qed

text \<open>
  Witness for C6: the row the client added, with notes, against the stored program.
\<close>

theorem new_exercise_skipped_witness:
  "exercise_notifications False (Some ''coach1'') added_prog
     (find_oldEx (base_prog (Some ''link1'')) (hd (weeks added_prog)) (hd (days (hd (weeks added_prog)))) lunges_ex)
     lunges_ex = []"
proof -
  have h: "\<forall>ow \<in> set (weeks (base_prog (Some ''link1''))). \<forall>od \<in> set (days ow).
             \<forall>oe \<in> set (exercises od). ex_id oe \<noteq> ex_id lunges_ex"
    by (simp add: data_defs lunges_ex_def)
  show ?thesis
    using new_exercise_skipped[OF h] .
qed

text \<open>
  Counterexample to C6 as stated: the client saves the program with a new named exercise
  that has non-empty client notes; the save persists no notification.
\<close>

theorem new_exercise_counterexample:
  "ex_name lunges_ex = ''Lunges'' \<and> clientNotes lunges_ex = ''Felt good'' \<and>
   lunges_ex \<in> set (all_exercises added_prog) \<and>
   lunges_ex \<notin> set (all_exercises (base_prog (Some ''link1''))) \<and>
   notifications (fst (save False client1 today0 added_prog (store [base_prog (Some ''link1'')] [link1] []))) = []"
  by (simp add: save_defs data_defs lunges_ex_def added_prog_def str_defs num_defs)

text \<open>
  C9. The stored program \<open>old\<close> has unique week numbers, day numbers and exercise ids,
  and is assigned to a client whose link resolves. The coach saves it with one change:
  the exercise at week index \<open>i\<close>, day index \<open>j\<close>, exercise index \<open>k\<close>, which has a name and
  an empty coach comment, gets the non-empty comment \<open>c\<close>. Then exactly one notification
  is persisted; it has type comment, is addressed to the client's profile and carries the
  message \<^verbatim>\<open>Coach commented on <name>: "<first 60 characters of c>"\<close>.
\<close>

theorem coach_comment_notification:
  assumes old: "getProgram (prog_id prog) s = Some old"
    and i: "i < length (weeks old)" and w: "weeks old ! i = w"
    and j: "j < length (days w)" and d: "days w ! j = d"
    and k: "k < length (exercises d)" and e: "exercises d ! k = e"
    and new: "weeks prog =
       (weeks old)[i := w\<lparr>days := (days w)[j := d\<lparr>exercises := (exercises d)[k := e\<lparr>coachComment := c\<rparr>]\<rparr>]\<rparr>]"
    and dw: "distinct (map weekNumber (weeks old))"
    and dd: "\<forall>w \<in> set (weeks old). distinct (map dayNumber (days w))"
    and de: "\<forall>w \<in> set (weeks old). \<forall>d \<in> set (days w). distinct (map ex_id (exercises d))"
    and name: "ex_name e \<noteq> []" and empty: "coachComment e = []" and c: "c \<noteq> []"
    and assigned: "clientId prog = Some cid" "cid \<noteq> []"
    and link: "find (\<lambda>l. cl_id l = cid) (getClients me s) = Some l" "clientProfileId l \<noteq> []"
  shows "\<exists>n. notifications (fst (save True me today prog s)) = notifications s @ [n] \<and>
             ntype n = Comment \<and> n_profileId n = clientProfileId l \<and> fromRole n = Coach \<and>
             message n = ''Coach commented on '' @ ex_name e @ '': '' @ [dquote] @ take 60 c @ [dquote]"
proof -
  have target: "resolve_target True me prog s = Some (clientProfileId l)"
    using assigned link by (simp add: resolve_target_def)
  have ds: "save_notifications True (Some (clientProfileId l)) prog old =
      [draft (Some (clientProfileId l)) Comment ''New Coach Feedback''
         (''Coach commented on '' @ ex_name e @ '': '' @ [dquote] @ take 60 c @ [dquote])
         prog (e\<lparr>coachComment := c\<rparr>) Coach]"
    using single_comment_drafts[OF i w j d k e new dw dd de name empty c] .
  obtain ns where ns:
    "notifications (fold (addNotification me)
        (save_notifications True (Some (clientProfileId l)) prog old) (put_program prog s))
       = notifications (put_program prog s) @ ns"
    "map n_profileId ns = map (\<lambda>d. addressee (targetProfileId d) me)
        (save_notifications True (Some (clientProfileId l)) prog old)"
    "map ntype ns = map d_type (save_notifications True (Some (clientProfileId l)) prog old)"
    "map message ns = map d_message (save_notifications True (Some (clientProfileId l)) prog old)"
    "map fromRole ns = map d_fromRole (save_notifications True (Some (clientProfileId l)) prog old)"
    using fold_addNotification by blast
  from ns(2) ds obtain n where n: "ns = [n]" by (cases ns) auto
  have "notifications (fst (save True me today prog s)) = notifications s @ [n]"
    using ns(1) n by (simp add: save_notifications_eq[OF old] target)
  moreover have "ntype n = Comment" "n_profileId n = clientProfileId l" "fromRole n = Coach"
    "message n = ''Coach commented on '' @ ex_name e @ '': '' @ [dquote] @ take 60 c @ [dquote]"
    using ns(2,3,4,5) n ds link(2) by (simp_all add: draft_def addressee_def)
  ultimately show ?thesis by blast
qed

text \<open>
  Witness for C9: the coach changes the comment of the bench press from empty to
  \<^verbatim>\<open>Good job\<close> in the program assigned to the linked client.
\<close>

theorem coach_comment_notification_witness:
  "\<exists>n. notifications (fst (save True coach1 today0 (commented_prog (Some ''link1''))
                             (store [base_prog (Some ''link1'')] [link1] []))) = [n] \<and>
       ntype n = Comment \<and> n_profileId n = ''client1'' \<and> fromRole n = Coach \<and>
       message n = ''Coach commented on Bench Press: '' @ [CHR 0x22] @ ''Good job'' @ [CHR 0x22]"
proof -
  let ?s = "store [base_prog (Some ''link1'')] [link1] []"
  let ?old = "base_prog (Some ''link1'')"
  let ?w = "\<lparr>weekNumber = 1, days = [\<lparr>dayNumber = 1, exercises = [squat_ex, bench_ex]\<rparr>]\<rparr>"
  let ?d = "\<lparr>dayNumber = 1, exercises = [squat_ex, bench_ex]\<rparr>"
  have h1: "getProgram (prog_id (commented_prog (Some ''link1''))) ?s = Some ?old"
    by (simp add: getProgram_def data_defs)
  have h2: "0 < length (weeks ?old)" "weeks ?old ! 0 = ?w"
    by (simp_all add: base_prog_def mk_program_def one_day_def)
  have h3: "0 < length (days ?w)" "days ?w ! 0 = ?d"
    by simp_all
  have h4: "1 < length (exercises ?d)" "exercises ?d ! 1 = bench_ex"
    by simp_all
  have h5: "weeks (commented_prog (Some ''link1'')) =
      (weeks ?old)[0 := ?w\<lparr>days := (days ?w)[0 := ?d\<lparr>exercises := (exercises ?d)[1 := bench_ex\<lparr>coachComment := ''Good job''\<rparr>]\<rparr>]\<rparr>]"
    by (simp add: base_prog_def commented_prog_def mk_program_def one_day_def)
  have h6: "distinct (map weekNumber (weeks ?old))"
    "\<forall>w \<in> set (weeks ?old). distinct (map dayNumber (days w))"
    "\<forall>w \<in> set (weeks ?old). \<forall>d \<in> set (days w). distinct (map ex_id (exercises d))"
    by (simp_all add: data_defs)
  have h7: "ex_name bench_ex \<noteq> []" "coachComment bench_ex = []" "''Good job'' \<noteq> []"
    by (simp_all add: data_defs)
  have h8: "clientId (commented_prog (Some ''link1'')) = Some ''link1''" "''link1'' \<noteq> []"
    by (simp_all add: data_defs)
  have h9: "find (\<lambda>l. cl_id l = ''link1'') (getClients coach1 ?s) = Some link1" "clientProfileId link1 \<noteq> []"
    by (simp_all add: getClients_def data_defs)
  have h10: "notifications ?s = []" "clientProfileId link1 = ''client1''"
    "ex_name bench_ex = ''Bench Press''" "take 60 ''Good job'' = ''Good job''" "dquote = CHR 0x22"
    by (simp_all add: data_defs dquote_def)
  show ?thesis
    using coach_comment_notification[OF h1 h2 h3 h4 h5 h6 h7 h8 h9, of today0]
    unfolding h10 by simp
qed

section \<open>Saving a program: the PR scan\<close>

subsection \<open>The scan as a whole\<close>

text \<open>
  The state in which the scan of a client's save starts: the new program is stored and
  the notifications are persisted.
\<close>

lemma save_scan:
  assumes "getProgram (prog_id prog) s = Some old"
  shows "save False me today prog s =
     scan_loop me (getPRs me s) prog today (all_exercises prog)
       (fold (addNotification me)
          (save_notifications False (resolve_target False me prog s) prog old) (put_program prog s))"
  using assms by (simp add: save_def Let_def getPRs_def updateProgram_stored)

lemma pre_scan_prs:
  "prs (fold (addNotification me) ds (put_program prog s)) = prs s"
  by simp

text \<open>A stored program is still stored after a save.\<close>

lemma scan_loop_programs:
  "programs (fst (scan_loop me L prog today exs s)) = programs s"
proof (induction exs arbitrary: s)
  case Nil
  then show ?case by simp
next
  case (Cons ex exs)
  then show ?case
    by (auto split: option.splits sum.splits prod.splits dest: addPR_other)
qed

lemma getProgram_put_program:
  assumes "getProgram (prog_id p) s = Some old"
  shows "\<exists>old'. getProgram (prog_id p) (put_program p s) = Some old'"
proof -
  from assms have "old \<in> set (programs s)" "prog_id old = prog_id p"
    by (auto simp: getProgram_def dest: find_SomeD)
  then have "prog_id p \<in> prog_id ` set (programs s)" by (metis imageI)
  then have "prog_id p \<in> set (map prog_id (programs s))" by simp
  moreover have "map prog_id (programs (put_program p s)) = map prog_id (programs s)"
    by (auto simp: put_program_def)
  ultimately have "prog_id p \<in> set (map prog_id (programs (put_program p s)))" by simp
  then have "\<exists>q \<in> set (programs (put_program p s)). prog_id q = prog_id p"
    by auto
  then have "find (\<lambda>q. prog_id q = prog_id p) (programs (put_program p s)) \<noteq> None"
    unfolding find_None_iff by blast
  then show ?thesis by (auto simp: getProgram_def)
qed

lemma save_stored:
  assumes "getProgram (prog_id prog) s = Some old"
  shows "\<exists>old'. getProgram (prog_id prog) (fst (save False me today prog s)) = Some old'"
proof -
  have "programs (fst (save False me today prog s)) = programs (put_program prog s)"
    by (simp add: save_scan[OF assms] scan_loop_programs)
  then have "getProgram (prog_id prog) (fst (save False me today prog s))
               = getProgram (prog_id prog) (put_program prog s)"
    by (simp add: getProgram_def)
  with getProgram_put_program[OF assms] show ?thesis by simp
qed

lemma int4_of_Some: "int4_of w = Some i \<Longrightarrow> w = Fin (of_int i)"
  by (auto simp: int4_of_def split: jsnum.splits if_splits)

lemma addPR_Inr:
  assumes "addPR me t w u d n s = Inr s'"
  shows "\<exists>row. prs s' = prs s @ [row] \<and> liftType row = t \<and> w = Fin (of_int (pr_weight row)) \<and>
               pr_profileId row = prof_id me"
  using assms by (auto simp: addPR_def split: option.splits dest: int4_of_Some)

lemma map_filter_append:
  "List.map_filter f (xs @ ys) = List.map_filter f xs @ List.map_filter f ys"
  by (simp add: List.map_filter_def)

text \<open>
  A scan that ends without a logged error has appended one row for each exercise that
  passed the checks, in traversal order, with the lift type and weight of that exercise.
\<close>

lemma scan_rows:
  assumes "scan_loop me L prog today exs s = (s', None)"
  shows "\<exists>rows. prs s' = prs s @ rows \<and>
           map (\<lambda>r. (liftType r, Fin (of_int (pr_weight r)))) rows = List.map_filter (scan_exercise L) exs \<and>
           (\<forall>r \<in> set rows. pr_profileId r = prof_id me)"
  using assms
proof (induction exs arbitrary: s)
  case Nil
  then show ?case by simp
next
  case (Cons ex exs)
  show ?case
  proof (cases "scan_exercise L ex")
    case None
    with Cons.prems have "scan_loop me L prog today exs s = (s', None)" by simp
    from Cons.IH[OF this] None show ?thesis by simp
  next
    case (Some tw)
    obtain t w where tw: "tw = (t, w)" by (cases tw)
    from Cons.prems Some tw obtain s1 where
      s1: "addPR me t w (weightUnit me) today (''Auto-logged from '' @ title prog @ '' - '' @ ex_name ex) s = Inr s1"
      and rest: "scan_loop me L prog today exs s1 = (s', None)"
      by (auto split: sum.splits)
    from addPR_Inr[OF s1] obtain row where row: "prs s1 = prs s @ [row]" "liftType row = t"
      "w = Fin (of_int (pr_weight row))" "pr_profileId row = prof_id me" by blast
    from Cons.IH[OF rest] obtain rows where rows: "prs s' = prs s1 @ rows"
      "map (\<lambda>r. (liftType r, Fin (of_int (pr_weight r)))) rows = List.map_filter (scan_exercise L) exs"
      "\<forall>r \<in> set rows. pr_profileId r = prof_id me" by blast
    show ?thesis
      by (rule exI[of _ "row # rows"]) (use row rows Some tw in simp)
  qed
qed

lemma scan_loop_all_none:
  "\<forall>ex \<in> set exs. scan_exercise L ex = None \<Longrightarrow> scan_loop me L prog today exs s = (s, None)"
  by (induction exs arbitrary: s) simp_all

lemma scan_loop_skip:
  "\<forall>ex \<in> set xs. scan_exercise L ex = None \<Longrightarrow>
     scan_loop me L prog today (xs @ rest) s = scan_loop me L prog today rest s"
  by (induction xs arbitrary: s) simp_all

subsection \<open>One exercise against the ledger\<close>

lemma scan_exercise_Some:
  assumes "scan_exercise L ex = Some (t, w)"
  shows "js_gt w (currentBest L t) \<and> \<not> js_le_zero w"
proof -
  from assms obtain t' where t': "classify (trim (toLowerCase (ex_name ex))) = Some t'"
    by (auto simp: scan_exercise_def split: if_splits option.splits)
  with assms have "t' = t" "w = parseFloat (ex_weight ex)"
    by (auto simp: scan_exercise_def Let_def split: if_splits)
  with assms t' show ?thesis
    by (auto simp: scan_exercise_def Let_def split: if_splits)
qed

lemma js_gt_mono: "js_gt w b' \<Longrightarrow> b \<le> b' \<Longrightarrow> js_gt w b"
  by (cases w) (auto simp: js_gt_def)

lemma scan_exercise_smaller:
  assumes "scan_exercise L' ex = Some (t, w)" and "currentBest L t \<le> currentBest L' t"
  shows "scan_exercise L ex = Some (t, w)"
proof -
  from assms(1) obtain t' where t': "classify (trim (toLowerCase (ex_name ex))) = Some t'"
    by (auto simp: scan_exercise_def split: if_splits option.splits)
  with assms(1) have eq: "t' = t" "w = parseFloat (ex_weight ex)"
    by (auto simp: scan_exercise_def Let_def split: if_splits)
  from scan_exercise_Some[OF assms(1)] assms(2) have "js_gt w (currentBest L t)"
    by (blast intro: js_gt_mono)
  with assms(1) t' eq show ?thesis
    by (auto simp: scan_exercise_def Let_def split: if_splits)
qed

lemma currentBest_ge:
  assumes "r \<in> set L" and "liftType r = t"
  shows "pr_weight r \<le> currentBest L t"
proof -
  have "pr_weight r \<in> set (map pr_weight (filter (\<lambda>p. liftType p = t) L))" using assms by auto
  then have "pr_weight r \<le> Max (set (map pr_weight (filter (\<lambda>p. liftType p = t) L)))"
    by (intro Max_ge) auto
  moreover have "filter (\<lambda>p. liftType p = t) L \<noteq> []" using assms by (auto simp: filter_empty_conv)
  ultimately show ?thesis by (simp add: currentBest_def Let_def)
qed

lemma currentBest_mono:
  assumes "\<forall>r \<in> set rows. 0 < pr_weight r"
  shows "currentBest L t \<le> currentBest (L @ rows) t"
proof (cases "filter (\<lambda>p. liftType p = t) L = []")
  case True
  show ?thesis
  proof (cases "filter (\<lambda>p. liftType p = t) rows = []")
    case e: True
    with True show ?thesis by (simp add: currentBest_def)
  next
    case False
    then obtain r where r: "r \<in> set rows" "liftType r = t" by (auto simp: filter_empty_conv)
    then have "pr_weight r \<le> currentBest (L @ rows) t" by (intro currentBest_ge) auto
    moreover have "0 < pr_weight r" using assms r by simp
    ultimately show ?thesis using True by (simp add: currentBest_def)
  qed
next
  case False
  let ?A = "set (map pr_weight (filter (\<lambda>p. liftType p = t) L))"
  have ne: "?A \<noteq> {}" using False by (auto simp: filter_empty_conv)
  have "Max ?A \<in> ?A" by (rule Max_in) (use ne in auto)
  then obtain r where "r \<in> set L" "liftType r = t" "pr_weight r = Max ?A" by auto
  then have "Max ?A \<le> currentBest (L @ rows) t"
    using currentBest_ge[of r "L @ rows" t] by simp
  with False show ?thesis by (simp add: currentBest_def)
qed

text \<open>
  Once the rows of a finished scan are part of the ledger, no exercise of that scan
  passes the checks again.
\<close>

lemma rescan_none:
  assumes rows: "map (\<lambda>r. (liftType r, Fin (of_int (pr_weight r)))) rows = List.map_filter (scan_exercise L) exs"
    and ex: "ex \<in> set exs"
  shows "scan_exercise (L @ rows) ex = None"
proof (rule ccontr)
  assume "scan_exercise (L @ rows) ex \<noteq> None"
  then obtain t w where tw: "scan_exercise (L @ rows) ex = Some (t, w)" by auto
  have pos: "\<forall>r \<in> set rows. 0 < pr_weight r"
  proof
    fix r assume "r \<in> set rows"
    then have "(liftType r, Fin (of_int (pr_weight r))) \<in> set (List.map_filter (scan_exercise L) exs)"
      using rows by (metis (no_types, lifting) image_eqI list.set_map)
    then obtain e where "scan_exercise L e = Some (liftType r, Fin (of_int (pr_weight r)))"
      by (auto simp: List.map_filter_def)
    from scan_exercise_Some[OF this] show "0 < pr_weight r" by (simp add: js_le_zero_def)
  qed
  from scan_exercise_smaller[OF tw currentBest_mono[OF pos]]
  have "scan_exercise L ex = Some (t, w)" .
  with ex have "(t, w) \<in> set (List.map_filter (scan_exercise L) exs)"
    by (force simp: List.map_filter_def)
  with rows obtain r where r: "r \<in> set rows" "liftType r = t" "w = Fin (of_int (pr_weight r))"
    by (metis (no_types, lifting) imageE list.set_map prod.inject)
  then have "pr_weight r \<le> currentBest (L @ rows) t" by (intro currentBest_ge) auto
  moreover from scan_exercise_Some[OF tw] r have "currentBest (L @ rows) t < pr_weight r"
    by (simp add: js_gt_def)
  ultimately show False by simp
qed

lemma not_completed_none: "\<not> isCompleted x \<Longrightarrow> scan_exercise L x = None"
  by (simp add: scan_exercise_def)

lemma squat_100_promoted:
  assumes "ex_name e = ''Squat''" and "ex_weight e = ''100''" and "isCompleted e"
    and "\<forall>p \<in> set L. liftType p \<noteq> Squat"
  shows "scan_exercise L e = Some (Squat, Fin 100)"
proof -
  have c: "classify (trim (toLowerCase ''Squat'')) = Some Squat"
    by (simp add: classify_def liftKeywords_def str_defs)
  have p: "parseFloat ''100'' = Fin 100"
    by (simp add: num_defs str_defs)
  have b: "currentBest L Squat = 0"
    using assms(4) by (simp add: currentBest_def filter_empty_conv)
  show ?thesis
    using assms(1,2,3) by (simp add: scan_exercise_def c p b isNaN_def js_le_zero_def js_gt_def)
qed

subsection \<open>Claims about the PR scan\<close>

text \<open>
  C7. A client saves a stored program whose only completed exercise is named \<^verbatim>\<open>Squat\<close>
  and has weight \<^verbatim>\<open>100\<close>, and the client's PR ledger holds no squat PR. Then the save appends
  exactly one row to the PR table: a PR of the client, of lift type squat, with weight
  100; and the scan logs no error.
\<close>

theorem single_squat_pr:
  assumes stored: "getProgram (prog_id prog) s = Some old"
    and exs: "all_exercises prog = xs @ e # ys"
    and others: "\<forall>x \<in> set xs \<union> set ys. \<not> isCompleted x"
    and e: "ex_name e = ''Squat''" "ex_weight e = ''100''" "isCompleted e"
    and none: "\<forall>p \<in> set (getPRs me s). liftType p \<noteq> Squat"
  shows "\<exists>row. prs (fst (save False me today prog s)) = prs s @ [row] \<and>
               liftType row = Squat \<and> pr_weight row = 100 \<and> pr_profileId row = prof_id me \<and>
               snd (save False me today prog s) = None"
proof -
  define s2 where "s2 = fold (addNotification me)
            (save_notifications False (resolve_target False me prog s) prog old) (put_program prog s)"
  let ?L = "getPRs me s"
  have xs: "\<forall>x \<in> set xs. scan_exercise ?L x = None" and ys: "\<forall>x \<in> set ys. scan_exercise ?L x = None"
    using others by (simp_all add: not_completed_none)
  have hit: "scan_exercise ?L e = Some (Squat, Fin 100)"
    using e none by (rule squat_100_promoted)
  have i4: "int4_of (Fin 100) = Some 100"
    by (simp add: int4_of_def)
  obtain s3 where s3: "addPR me Squat (Fin 100) (weightUnit me) today
        (''Auto-logged from '' @ title prog @ '' - '' @ ex_name e) s2 = Inr s3"
    by (simp add: addPR_def i4)
  from addPR_Inr[OF s3] obtain row where row: "prs s3 = prs s2 @ [row]" "liftType row = Squat"
    "Fin 100 = Fin (of_int (pr_weight row))" "pr_profileId row = prof_id me" by blast
  have "save False me today prog s = scan_loop me ?L prog today (e # ys) s2"
    by (simp add: save_scan[OF stored] s2_def exs scan_loop_skip[OF xs])
  also have "\<dots> = scan_loop me ?L prog today ys s3"
    using hit s3 by simp
  also have "\<dots> = (s3, None)"
    using ys by (rule scan_loop_all_none)
  finally have res: "save False me today prog s = (s3, None)" .
  have "prs s3 = prs s @ [row]" using row(1) by (simp add: s2_def pre_scan_prs)
  moreover have "pr_weight row = 100" using row(3) by simp
  ultimately show ?thesis using res row(2,4) by auto
qed

text \<open>
  Witness for C7: the client saves the base program; its squat is completed at 100, its
  bench press is not completed, and the PR table is empty.
\<close>

theorem single_squat_pr_witness:
  "\<exists>row. prs (fst (save False client1 today0 (base_prog (Some ''link1''))
                      (store [base_prog (Some ''link1'')] [link1] []))) = [] @ [row] \<and>
         liftType row = Squat \<and> pr_weight row = 100 \<and> pr_profileId row = ''client1'' \<and>
         snd (save False client1 today0 (base_prog (Some ''link1''))
                (store [base_prog (Some ''link1'')] [link1] [])) = None"
proof -
  have h0: "getProgram (prog_id (base_prog (Some ''link1''))) (store [base_prog (Some ''link1'')] [link1] [])
              = Some (base_prog (Some ''link1''))"
    by (simp add: getProgram_def data_defs)
  have h1: "all_exercises (base_prog (Some ''link1'')) = [] @ squat_ex # [bench_ex]"
    by (simp add: all_exercises_def base_prog_def mk_program_def one_day_def)
  have h2: "\<forall>x \<in> set [] \<union> set [bench_ex]. \<not> isCompleted x"
    by (simp add: data_defs)
  have h3: "ex_name squat_ex = ''Squat''" "ex_weight squat_ex = ''100''" "isCompleted squat_ex"
    by (simp_all add: data_defs)
  have h4: "\<forall>p \<in> set (getPRs client1 (store [base_prog (Some ''link1'')] [link1] [])). liftType p \<noteq> Squat"
    by (simp add: getPRs_def data_defs)
  have h5: "prs (store [base_prog (Some ''link1'')] [link1] []) = []" "prof_id client1 = ''client1''"
    by (simp_all add: data_defs)
  show ?thesis
    using single_squat_pr[OF h0 h1 h2 h3 h4, of today0] unfolding h5 .
qed

subsection \<open>Saving twice, and two exercises of one lift\<close>

text \<open>
  Apart from the refused inserts: if the scan of a client's save of a stored program
  ends without a logged error, saving the same program again leaves the PR table as the
  first save made it.
\<close>

lemma resave_no_new_pr:
  assumes stored: "getProgram (prog_id prog) s = Some old"
    and ok: "snd (save False me today prog s) = None"
  shows "prs (fst (save False me today prog (fst (save False me today prog s))))
           = prs (fst (save False me today prog s))"
proof -
  let ?L = "getPRs me s"
  let ?exs = "all_exercises prog"
  define s2 where "s2 = fold (addNotification me)
            (save_notifications False (resolve_target False me prog s) prog old) (put_program prog s)"
  define s3 where "s3 = fst (save False me today prog s)"
  have first: "scan_loop me ?L prog today ?exs s2 = (s3, None)"
    using ok by (simp add: save_scan[OF stored] s2_def s3_def prod_eq_iff)
  from scan_rows[OF first] obtain rows where rows: "prs s3 = prs s2 @ rows"
    "map (\<lambda>r. (liftType r, Fin (of_int (pr_weight r)))) rows = List.map_filter (scan_exercise ?L) ?exs"
    "\<forall>r \<in> set rows. pr_profileId r = prof_id me" by blast
  have prs3: "prs s3 = prs s @ rows" using rows(1) by (simp add: s2_def pre_scan_prs)
  have "filter (\<lambda>p. pr_profileId p = prof_id me) rows = rows" using rows(3) by simp
  then have L3: "getPRs me s3 = ?L @ rows" by (simp add: getPRs_def prs3)
  from save_stored[OF stored] obtain old' where stored': "getProgram (prog_id prog) s3 = Some old'"
    unfolding s3_def by blast
  define s2' where "s2' = fold (addNotification me)
            (save_notifications False (resolve_target False me prog s3) prog old') (put_program prog s3)"
  have "\<forall>ex \<in> set ?exs. scan_exercise (?L @ rows) ex = None"
    using rescan_none[OF rows(2)] by blast
  then have "scan_loop me (getPRs me s3) prog today ?exs s2' = (s2', None)"
    by (simp add: L3 scan_loop_all_none)
  then have "fst (save False me today prog s3) = s2'"
    by (simp add: save_scan[OF stored'] s2'_def)
  moreover have "prs s2' = prs s3" by (simp add: s2'_def pre_scan_prs)
  ultimately show ?thesis by (simp add: s3_def)
qed

text \<open>
  C8, the code at the failing input. The stored program holds three completed lifts,
  squat 200, front squat 100.5 and bench press 50, and the PR table is empty. The first
  save inserts the squat PR; the insert of 100.5 is refused by the integer column of the
  PR table, the scan ends there and the bench press is never reached. The second save of
  the same program skips the front squat, since 100.5 is below the squat PR of 200 now
  in the ledger, reaches the bench press and creates an additional PR record.
\<close>

theorem resave_adds_pr:
  "map (\<lambda>r. (liftType r, pr_weight r))
     (prs (fst (save False client1 today0 fractional_prog (store [fractional_prog] [link1] []))))
     = [(Squat, 200)] \<and>
   snd (save False client1 today0 fractional_prog (store [fractional_prog] [link1] []))
     = Some (HttpError 500) \<and>
   map (\<lambda>r. (liftType r, pr_weight r))
     (prs (fst (save False client1 today0 fractional_prog
                  (fst (save False client1 today0 fractional_prog (store [fractional_prog] [link1] []))))))
     = [(Squat, 200), (Bench, 50)]"
  by (simp add: save_defs data_defs fractional_prog_def str_defs num_defs)

text \<open>
  Apart from the refused inserts: within a single save the scanner reads the PR ledger
  once, before scanning, and does not refresh it. If two distinct exercises of the saved
  and stored program both pass the scanner's checks against that ledger with the same
  lift type and the same weight, and the scan ends without a logged error, then that one
  save creates at least two PR records of that lift type and weight.
\<close>

lemma duplicate_promotion:
  assumes stored: "getProgram (prog_id prog) s = Some old"
    and ok: "snd (save False me today prog s) = None"
    and two: "all_exercises prog = xs @ e1 # ys @ e2 # zs"
    and e1: "scan_exercise (getPRs me s) e1 = Some (t, w)"
    and e2: "scan_exercise (getPRs me s) e2 = Some (t, w)"
  shows "\<exists>rows. prs (fst (save False me today prog s)) = prs s @ rows \<and>
           2 \<le> length (filter (\<lambda>r. liftType r = t \<and> Fin (of_int (pr_weight r)) = w) rows)"
proof -
  define s2 where "s2 = fold (addNotification me)
            (save_notifications False (resolve_target False me prog s) prog old) (put_program prog s)"
  have first: "scan_loop me (getPRs me s) prog today (all_exercises prog) s2
                 = (fst (save False me today prog s), None)"
    using ok by (simp add: save_scan[OF stored] s2_def prod_eq_iff)
  from scan_rows[OF first] obtain rows where rows: "prs (fst (save False me today prog s)) = prs s2 @ rows"
    "map (\<lambda>r. (liftType r, Fin (of_int (pr_weight r)))) rows
       = List.map_filter (scan_exercise (getPRs me s)) (all_exercises prog)" by blast
  let ?f = "\<lambda>r. (liftType r, Fin (of_int (pr_weight r)))"
  let ?m = "List.map_filter (scan_exercise (getPRs me s))"
  have "map ?f rows = ?m xs @ (t, w) # ?m ys @ (t, w) # ?m zs"
    using rows(2) two e1 e2 by (simp add: map_filter_append)
  then have "2 \<le> length (filter (\<lambda>p. p = (t, w)) (map ?f rows))" by simp
  also have "filter (\<lambda>p. p = (t, w)) (map ?f rows)
      = map ?f (filter (\<lambda>r. liftType r = t \<and> Fin (of_int (pr_weight r)) = w) rows)"
    by (simp add: filter_map o_def)
  finally have "2 \<le> length (filter (\<lambda>r. liftType r = t \<and> Fin (of_int (pr_weight r)) = w) rows)"
    by simp
  moreover have "prs (fst (save False me today prog s)) = prs s @ rows"
    using rows(1) by (simp add: s2_def pre_scan_prs)
  ultimately show ?thesis by blast
qed

text \<open>
  Two completed squats of weight 100 and an empty PR table: the save creates two squat
  PRs of weight 100.
\<close>

lemma twin_whole_two_prs:
  "map (\<lambda>r. (liftType r, pr_weight r))
     (prs (fst (save False client1 today0 (twin_prog ''100'') (store [twin_prog ''100''] [link1] []))))
     = [(Squat, 100), (Squat, 100)] \<and>
   snd (save False client1 today0 (twin_prog ''100'') (store [twin_prog ''100''] [link1] [])) = None"
  by (simp add: save_defs data_defs twin_prog_def str_defs num_defs)

text \<open>
  C10, the code at the failing input. The stored program holds two completed squats of
  the same weight 100.5, and the PR table is empty, so both pass the scanner's checks
  against the pre-save best of 0. The first insert is refused by the integer column of
  the PR table and the scan ends: the save creates no PR record at all.
\<close>

theorem twin_fractional_no_pr:
  "scan_exercise (getPRs client1 (store [twin_prog ''100.5''] [link1] []))
      (mk_exercise ''e0'' ''Squat'' ''100.5'' True) = Some (Squat, Fin (201 / 2)) \<and>
   scan_exercise (getPRs client1 (store [twin_prog ''100.5''] [link1] []))
      (mk_exercise ''e1'' ''Back Squat'' ''100.5'' True) = Some (Squat, Fin (201 / 2)) \<and>
   prs (fst (save False client1 today0 (twin_prog ''100.5'') (store [twin_prog ''100.5''] [link1] []))) = [] \<and>
   snd (save False client1 today0 (twin_prog ''100.5'') (store [twin_prog ''100.5''] [link1] []))
     = Some (HttpError 500)"
  by (simp add: save_defs data_defs twin_prog_def str_defs num_defs)

end
